theory Spec2Isabelle
  imports Complex_Main "HOL-Library.Word"
begin

unbundle bit_operations_syntax

section \<open>Python values used by the extractor\<close>

text \<open>
  A Python \<open>str\<close> is a sequence of Unicode code points, so it is modelled as a list of
  natural numbers; \<open>len\<close> is \<open>length\<close>.  \<open>str w\<close> turns an ASCII literal of the
  source into that representation.  \<open>bytes\<close> is a list of 8-bit words.
\<close>

type_synonym pystr = "nat list"
type_synonym pybytes = "8 word list"

definition str :: "string \<Rightarrow> pystr" where
  "str w = map of_char w"

text \<open>An exception is its class and its message (\<open>str(e)\<close>).  \<open>CancelledError\<close>
  stands for the \<open>BaseException\<close>s (\<open>asyncio.CancelledError\<close>, an interrupt
  delivered at an \<open>await\<close>) that \<open>except Exception\<close> does not catch; every other
  class is an \<open>Exception\<close>.\<close>

datatype exn_class =
    ValueError
  | BinasciiError
  | OSError
  | KeyError
  | ZeroDivisionError
  | PlaywrightError
  | PlainException
  | CancelledError

datatype exn = Exn exn_class pystr

fun is_Exception :: "exn \<Rightarrow> bool" where
  "is_Exception (Exn k m) = (k \<noteq> CancelledError)"

fun message :: "exn \<Rightarrow> pystr" where
  "message (Exn k m) = m"

text \<open>\<open>str.isspace\<close> on one code point; the same set is matched by \<open>\s\<close> in a
  \<open>str\<close> pattern and removed by \<open>str.strip()\<close>.\<close>

definition py_isspace :: "nat \<Rightarrow> bool" where
  "py_isspace c \<longleftrightarrow>
     (9 \<le> c \<and> c \<le> 13) \<or> (28 \<le> c \<and> c \<le> 32) \<or> c = 133 \<or> c = 160 \<or> c = 5760 \<or>
     (8192 \<le> c \<and> c \<le> 8202) \<or> c = 8232 \<or> c = 8233 \<or> c = 8239 \<or> c = 8287 \<or> c = 12288"

text \<open>\<open>sub in s\<close> for strings.\<close>

fun starts_with :: "pystr \<Rightarrow> pystr \<Rightarrow> bool" where
  "starts_with s [] = True"
| "starts_with [] (p # ps) = False"
| "starts_with (c # s) (p # ps) = (c = p \<and> starts_with s ps)"

fun contains :: "pystr \<Rightarrow> pystr \<Rightarrow> bool" where
  "contains [] sub = (sub = [])"
| "contains (c # s) sub = (starts_with (c # s) sub \<or> contains s sub)"


section \<open>Regular expressions of the extractor\<close>

text \<open>
  The five patterns of the source use only literal characters, character classes, the
  greedy repetitions \<open>*\<close> and \<open>+\<close> of a class, and one capturing group.  A pattern is a
  list of items; \<open>X+\<close> is written \<open>One X, Star X\<close>.  \<open>re_match\<close> is the backtracking
  matcher of \<open>re\<close> anchored at the start of its input: a \<open>Star\<close> first takes one more
  character and falls back to stopping when the rest then fails.  The arguments \<open>opn\<close>
  and \<open>g\<close> record whether group 1 is open and the text captured so far; the result is
  \<open>match.group(1)\<close>.  \<open>re_search\<close> tries the start positions from left to right, the end
  of the input included, as \<open>re.search\<close> does.  None of the patterns contains \<open>.\<close>, so
  \<open>re.DOTALL\<close> changes nothing; a negated class matches a newline with or without it.
\<close>

datatype re_item = One "nat \<Rightarrow> bool" | Star "nat \<Rightarrow> bool" | GOpen | GClose

fun re_match :: "re_item list \<Rightarrow> bool \<Rightarrow> pystr \<Rightarrow> pystr \<Rightarrow> pystr option" where
  "re_match [] opn g s = Some g"
| "re_match (GOpen # r) opn g s = re_match r True [] s"
| "re_match (GClose # r) opn g s = re_match r False g s"
| "re_match (One P # r) opn g [] = None"
| "re_match (One P # r) opn g (c # s) =
     (if P c then re_match r opn (if opn then g @ [c] else g) s else None)"
| "re_match (Star P # r) opn g [] = re_match r opn g []"
| "re_match (Star P # r) opn g (c # s) =
     (if P c
      then (case re_match (Star P # r) opn (if opn then g @ [c] else g) s of
              Some m \<Rightarrow> Some m
            | None \<Rightarrow> re_match r opn g (c # s))
      else re_match r opn g (c # s))"

fun re_search :: "re_item list \<Rightarrow> pystr \<Rightarrow> pystr option" where
  "re_search p [] = re_match p False [] []"
| "re_search p (c # s) =
     (case re_match p False [] (c # s) of Some m \<Rightarrow> Some m | None \<Rightarrow> re_search p s)"

definition lit :: "string \<Rightarrow> re_item list" where
  "lit w = map (\<lambda>c. One (\<lambda>x. x = of_char c)) w"

text \<open>The classes \<open>["\']\<close> and \<open>[^"\']\<close>.\<close>

definition quote :: "nat \<Rightarrow> bool" where
  "quote c \<longleftrightarrow> c = 34 \<or> c = 39"

definition nquote :: "nat \<Rightarrow> bool" where
  "nquote c \<longleftrightarrow> \<not> quote c"


section \<open>Payload matcher: \<open>extract_pdf_data\<close>\<close>

text \<open>\<^verbatim>\<open>var pdfData = ["\']([^"\']+)["\']\<close>\<close>

definition pdf_pattern :: "re_item list" where
  "pdf_pattern =
     lit ''var pdfData = '' @ [One quote, GOpen, One nquote, Star nquote, GClose, One quote]"

text \<open>\<^verbatim>\<open>pdfData\s*=\s*["\']([^"\']+)["\']\<close>\<close>

definition assign_pattern :: "re_item list" where
  "assign_pattern =
     lit ''pdfData'' @ [Star py_isspace] @ lit ''='' @
     [Star py_isspace, One quote, GOpen, One nquote, Star nquote, GClose, One quote]"

text \<open>\<^verbatim>\<open>["\']data:application/pdf;base64,([^"\']+)["\']\<close>\<close>

definition data_uri_pattern :: "re_item list" where
  "data_uri_pattern =
     [One quote] @ lit ''data:application/pdf;base64,'' @
     [GOpen, One nquote, Star nquote, GClose, One quote]"

text \<open>\<^verbatim>\<open>["\'](JVBERi[^"\']+)["\']\<close>\<close>

definition header_pattern :: "re_item list" where
  "header_pattern =
     [One quote, GOpen] @ lit ''JVBERi'' @ [One nquote, Star nquote, GClose, One quote]"

definition alternative_patterns :: "re_item list list" where
  "alternative_patterns = [assign_pattern, data_uri_pattern, header_pattern]"

text \<open>The \<open>for pattern in alternative_patterns\<close> loop: the first pattern that matches
  returns its group.\<close>

fun first_match :: "re_item list list \<Rightarrow> pystr \<Rightarrow> pystr option" where
  "first_match [] content = None"
| "first_match (p # ps) content =
     (case re_search p content of Some g \<Rightarrow> Some g | None \<Rightarrow> first_match ps content)"

text \<open>\<open>extract_pdf_data\<close>: the named pattern first, then the alternatives.  A match object
  is always true, \<open>re.search\<close> raises nothing on a \<open>str\<close>, so the \<open>except\<close> branch of the
  source is never taken and the function is total.\<close>

definition extract_pdf_data :: "pystr \<Rightarrow> pystr option" where
  "extract_pdf_data content =
     (case re_search pdf_pattern content of
        Some g \<Rightarrow> Some g
      | None \<Rightarrow> first_match alternative_patterns content)"




section \<open>Book identifier: \<open>extract_book_id\<close>\<close>

text \<open>\<^verbatim>\<open>[?&]e=([^&]+)\<close>\<close>

definition id_pattern :: "re_item list" where
  "id_pattern =
     [One (\<lambda>c. c = 63 \<or> c = 38)] @ lit ''e='' @
     [GOpen, One (\<lambda>c. c \<noteq> 38), Star (\<lambda>c. c \<noteq> 38), GClose]"


section \<open>Library functions on strings\<close>

text \<open>\<open>str.strip()\<close> without argument.\<close>

definition strip :: "pystr \<Rightarrow> pystr" where
  "strip s = rev (dropWhile py_isspace (rev (dropWhile py_isspace s)))"

text \<open>\<open>str(n)\<close> for a non-negative integer, as an f-string prints it.\<close>

function decimal :: "nat \<Rightarrow> pystr" where
  "decimal n = (if n < 10 then [48 + n] else decimal (n div 10) @ [48 + n mod 10])"
  by pat_completeness auto
termination
  by (relation "measure id") auto

declare decimal.simps [simp del]

text \<open>\<open>s.split(sep)\<close> for a one-character separator, and \<open>sep.join(xs)\<close>.\<close>

fun split_on :: "nat \<Rightarrow> pystr \<Rightarrow> pystr list" where
  "split_on sep [] = [[]]"
| "split_on sep (c # s) =
     (if c = sep then [] # split_on sep s
      else (case split_on sep s of [] \<Rightarrow> [[c]] | x # xs \<Rightarrow> (c # x) # xs))"

fun join_with :: "nat \<Rightarrow> pystr list \<Rightarrow> pystr" where
  "join_with sep [] = []"
| "join_with sep [x] = x"
| "join_with sep (x # y # xs) = x @ sep # join_with sep (y # xs)"


section \<open>Base64\<close>

text \<open>The alphabet: \<open>table_b2a_base64\<close> of \<open>binascii\<close>.  \<open>a2b\<close> is the inverse table
  \<open>table_a2b_base64\<close>; \<open>None\<close> stands for its entries outside the alphabet.\<close>

definition b64_table :: pystr where
  "b64_table = str ''ABCDEFGHIJKLMNOPQRSTUVWXYZabcdefghijklmnopqrstuvwxyz0123456789+/''"

definition b2a :: "8 word \<Rightarrow> nat" where
  "b2a v = b64_table ! unat v"

fun table_index :: "nat \<Rightarrow> pystr \<Rightarrow> nat option" where
  "table_index c [] = None"
| "table_index c (x # xs) = (if c = x then Some 0 else map_option Suc (table_index c xs))"

definition a2b :: "nat \<Rightarrow> 8 word option" where
  "a2b c = map_option of_nat (table_index c b64_table)"

text \<open>Standard base64 with padding (RFC 4648), what \<open>base64.b64encode\<close> produces: the
  encoding that the round-trip property of the specification speaks of.  Every argument
  of \<open>b2a\<close> below is less than 64.\<close>

fun b64encode :: "pybytes \<Rightarrow> pystr" where
  "b64encode [] = []"
| "b64encode [a] = [b2a (drop_bit 2 a), b2a (push_bit 4 (a AND 3)), 61, 61]"
| "b64encode [a, b] =
     [b2a (drop_bit 2 a), b2a (push_bit 4 (a AND 3) OR drop_bit 4 b),
      b2a (push_bit 2 (b AND 15)), 61]"
| "b64encode (a # b # c # bs) =
     [b2a (drop_bit 2 a), b2a (push_bit 4 (a AND 3) OR drop_bit 4 b),
      b2a (push_bit 2 (b AND 15) OR drop_bit 6 c), b2a (c AND 63)] @ b64encode bs"

text \<open>
  \<open>binascii.a2b_base64(s, strict_mode=False)\<close> of CPython 3.11, which \<open>base64.b64decode\<close>
  calls with its default \<open>validate=False\<close>: the loop over the input with its variables
  \<open>quad_pos\<close>, \<open>leftchar\<close>, \<open>pads\<close> and the output written so far.  A character outside
  the alphabet is skipped.  A \<open>=\<close> ends the input once it completes a quad
  (\<open>quad_pos >= 2 && quad_pos + ++pads >= 4\<close>) and is skipped otherwise.  Input that
  ends inside a quad raises \<open>binascii.Error\<close>.
\<close>

fun a2b_loop :: "nat \<Rightarrow> 8 word \<Rightarrow> nat \<Rightarrow> pybytes \<Rightarrow> pystr \<Rightarrow> exn + pybytes" where
  "a2b_loop quad_pos leftchar pads out [] =
     (if quad_pos \<noteq> 0
      then (if quad_pos = 1
            then Inl (Exn BinasciiError
                   (str ''Invalid base64-encoded string: number of data characters ('' @
                    decimal (length out div 3 * 4 + 1) @
                    str '') cannot be 1 more than a multiple of 4''))
            else Inl (Exn BinasciiError (str ''Incorrect padding'')))
      else Inr out)"
| "a2b_loop quad_pos leftchar pads out (c # cs) =
     (if c = 61
      then (if quad_pos \<ge> 2
            then (if quad_pos + (pads + 1) \<ge> 4 then Inr out
                  else a2b_loop quad_pos leftchar (pads + 1) out cs)
            else a2b_loop quad_pos leftchar pads out cs)
      else (case a2b c of
              None \<Rightarrow> a2b_loop quad_pos leftchar pads out cs
            | Some this_ch \<Rightarrow>
                (if quad_pos = 0 then a2b_loop 1 this_ch 0 out cs
                 else if quad_pos = 1
                   then a2b_loop 2 (this_ch AND 15) 0
                          (out @ [push_bit 2 leftchar OR drop_bit 4 this_ch]) cs
                 else if quad_pos = 2
                   then a2b_loop 3 (this_ch AND 3) 0
                          (out @ [push_bit 4 leftchar OR drop_bit 2 this_ch]) cs
                 else a2b_loop 0 0 0 (out @ [push_bit 6 leftchar OR this_ch]) cs)))"

text \<open>\<open>base64.b64decode(s)\<close> for a \<open>str\<close>: \<open>s.encode('ascii')\<close> raises \<open>ValueError\<close> on a
  code point above 127, then the lenient decoder runs.\<close>

definition b64decode :: "pystr \<Rightarrow> exn + pybytes" where
  "b64decode s =
     (if list_ex (\<lambda>c. 127 < c) s
      then Inl (Exn ValueError (str ''string argument should contain only ASCII characters''))
      else a2b_loop 0 0 0 [] s)"


section \<open>Paths\<close>

text \<open>
  A \<open>pathlib.PurePosixPath\<close>: its root (empty, \<open>/\<close> or \<open>//\<close>) and the components after
  it.  \<open>parse_part\<close> is \<open>parse_parts\<close> on one string with \<open>splitroot\<close>: empty and \<open>.\<close>
  components are dropped.  \<open>joinpath p key\<close> is \<open>p / key\<close>: a key that has a root replaces
  the path on the left.  \<open>path_str\<close> is \<open>str(p)\<close>.
\<close>

record ppath =
  anchor :: pystr
  parts :: "pystr list"

definition splitroot :: "pystr \<Rightarrow> pystr \<times> pystr" where
  "splitroot part =
     (if part \<noteq> [] \<and> hd part = 47
      then (let stripped_part = dropWhile (\<lambda>c. c = 47) part
            in if length part - length stripped_part = 2 then ([47, 47], stripped_part)
               else ([47], stripped_part))
      else ([], part))"

definition parse_part :: "pystr \<Rightarrow> ppath" where
  "parse_part part =
     (case splitroot part of
        (rt, rel) \<Rightarrow>
          \<lparr>anchor = rt, parts = filter (\<lambda>x. x \<noteq> [] \<and> x \<noteq> [46]) (split_on 47 rel)\<rparr>)"

definition joinpath :: "ppath \<Rightarrow> pystr \<Rightarrow> ppath" where
  "joinpath p key =
     (let p2 = parse_part key
      in if anchor p2 \<noteq> [] then p2 else p\<lparr>parts := parts p @ parts p2\<rparr>)"

definition path_str :: "ppath \<Rightarrow> pystr" where
  "path_str p =
     (let s = anchor p @ join_with 47 (parts p) in if s = [] then [46] else s)"


section \<open>URL parsing and validation\<close>

text \<open>
  \<open>urllib.parse.urlparse\<close> of CPython 3.11 on a \<open>str\<close>, as far as \<open>validate_url\<close> reads
  its result: the scheme, the network location and the path (the path without
  parameters, query and fragment).  Two checks of \<open>urlsplit\<close> are not computed here, the
  validation of a bracketed host (\<open>_check_bracketed_host\<close>) and the NFKC check of a
  network location that is not ASCII (\<open>_checknetloc\<close>); the parameter \<open>ok\<close> says
  whether they pass, and is asked only for such a network location.
\<close>

record url_parts =
  scheme :: pystr
  netloc :: pystr
  path :: pystr

definition scheme_char :: "nat \<Rightarrow> bool" where
  "scheme_char c \<longleftrightarrow>
     (97 \<le> c \<and> c \<le> 122) \<or> (65 \<le> c \<and> c \<le> 90) \<or> (48 \<le> c \<and> c \<le> 57) \<or>
     c = 43 \<or> c = 45 \<or> c = 46"

definition ascii_alpha :: "nat \<Rightarrow> bool" where
  "ascii_alpha c \<longleftrightarrow> (97 \<le> c \<and> c \<le> 122) \<or> (65 \<le> c \<and> c \<le> 90)"

definition ascii_lower :: "pystr \<Rightarrow> pystr" where
  "ascii_lower s = map (\<lambda>c. if 65 \<le> c \<and> c \<le> 90 then c + 32 else c) s"

text \<open>The schemes of \<open>uses_params\<close>.\<close>

definition uses_params :: "pystr list" where
  "uses_params =
     map str [[], ''ftp'', ''hdl'', ''prospero'', ''http'', ''imap'', ''https'', ''shttp'',
              ''rtsp'', ''rtsps'', ''rtspu'', ''sip'', ''sips'', ''mms'', ''sftp'', ''tel'']"

text \<open>\<open>_splitparams\<close>: the path ends at the first \<open>;\<close> of its last segment.\<close>

definition splitparams :: "pystr \<Rightarrow> pystr" where
  "splitparams url =
     (if 47 \<in> set url
      then (let last_seg = rev (takeWhile (\<lambda>c. c \<noteq> 47) (rev url));
                front = take (length url - length last_seg) url
            in front @ takeWhile (\<lambda>c. c \<noteq> 59) last_seg)
      else takeWhile (\<lambda>c. c \<noteq> 59) url)"

definition urlparse :: "(pystr \<Rightarrow> bool) \<Rightarrow> pystr \<Rightarrow> exn + url_parts" where
  "urlparse ok url0 =
     (let url1 = dropWhile (\<lambda>c. c \<le> 32) url0;
          url2 = filter (\<lambda>c. c \<noteq> 9 \<and> c \<noteq> 13 \<and> c \<noteq> 10) url1;
          head = takeWhile (\<lambda>c. c \<noteq> 58) url2;
          has_scheme = (length head < length url2 \<and> head \<noteq> [] \<and> ascii_alpha (hd url2) \<and>
                        list_all scheme_char head);
          sch = (if has_scheme then ascii_lower head else []);
          url3 = (if has_scheme then drop (length head + 1) url2 else url2);
          has_netloc = (take 2 url3 = [47, 47]);
          nl = (if has_netloc
                then takeWhile (\<lambda>c. c \<noteq> 47 \<and> c \<noteq> 63 \<and> c \<noteq> 35) (drop 2 url3) else []);
          url4 = (if has_netloc
                  then dropWhile (\<lambda>c. c \<noteq> 47 \<and> c \<noteq> 63 \<and> c \<noteq> 35) (drop 2 url3) else url3);
          url5 = takeWhile (\<lambda>c. c \<noteq> 35) url4;
          url6 = takeWhile (\<lambda>c. c \<noteq> 63) url5;
          url7 = (if List.member uses_params sch \<and> List.member url6 59
                  then splitparams url6 else url6)
      in if (List.member nl 91 \<and> \<not> List.member nl 93) \<or> (List.member nl 93 \<and> \<not> List.member nl 91)
         then Inl (Exn ValueError (str ''Invalid IPv6 URL''))
         else if (List.member nl 91 \<or> list_ex (\<lambda>c. 127 < c) nl) \<and> \<not> ok nl
         then Inl (Exn ValueError (str ''invalid netloc''))
         else Inr \<lparr>scheme = sch, netloc = nl, path = url7\<rparr>)"


section \<open>The world outside the extractor\<close>

text \<open>
  What a run cannot compute is read from an environment: the clock (\<open>clock env n\<close> is
  the \<open>n\<close>-th reading of \<open>datetime.now()\<close>), the formatting of times, the two checks of
  \<open>urlsplit\<close> mentioned above, and why \<open>open\<close> for writing fails on a path, if it does
  (the message of its \<open>OSError\<close>).
\<close>

record env =
  netloc_ok :: "pystr \<Rightarrow> bool"
  clock :: "nat \<Rightarrow> int"
  strftime :: "int \<Rightarrow> pystr"
  isoformat :: "int \<Rightarrow> pystr"
  timedelta_str :: "int \<Rightarrow> pystr"
  open_error :: "pystr \<Rightarrow> pystr option"

text \<open>A dictionary is an association list in insertion order with distinct keys; the keys
  of the source are literals.\<close>

datatype pyval =
    VBool bool
  | VInt int
  | VStr pystr
  | VNone
  | VDict "(string \<times> pyval) list"

type_synonym pydict = "(string \<times> pyval) list"

fun dict_set :: "pydict \<Rightarrow> string \<Rightarrow> pyval \<Rightarrow> pydict" where
  "dict_set [] k v = [(k, v)]"
| "dict_set ((k', v') # d) k v = (if k' = k then (k, v) # d else (k', v') # dict_set d k v)"

text \<open>\<open>{**a, **b}\<close>\<close>

fun dict_merge :: "pydict \<Rightarrow> pydict \<Rightarrow> pydict" where
  "dict_merge a [] = a"
| "dict_merge a ((k, v) # b) = dict_merge (dict_set a k v) b"

fun truthy :: "pyval \<Rightarrow> bool" where
  "truthy (VBool b) = b"
| "truthy (VInt i) = (i \<noteq> 0)"
| "truthy (VStr s) = (s \<noteq> [])"
| "truthy VNone = False"
| "truthy (VDict d) = (d \<noteq> [])"

text \<open>
  The state that a run changes: the files written, the operations invoked on the browser
  and the file system in their order, the records sent to the logger by the frame scan,
  and the number of clock readings taken.  The logger calls of the other functions change
  neither control flow nor results and are left out.
\<close>

datatype file_content = Bytes pybytes | Json pydict

datatype event =
    Launch
  | NewPage
  | Goto pystr
  | Sleep
  | QuerySelectorAll
  | GetAttribute nat
  | ContentFrame nat
  | TextContent nat
  | Screenshot pystr
  | Close
  | WriteFile pystr

datatype log_level = Info | Warning | Error

record world =
  files :: "pystr \<rightharpoonup> file_content"
  trace :: "event list"
  logged :: "(log_level \<times> string) list"
  ticks :: nat

definition emit :: "event \<Rightarrow> world \<Rightarrow> world" where
  "emit e w = w\<lparr>trace := trace w @ [e]\<rparr>"

definition logger :: "log_level \<Rightarrow> string \<Rightarrow> world \<Rightarrow> world" where
  "logger lvl msg w = w\<lparr>logged := logged w @ [(lvl, msg)]\<rparr>"

text \<open>\<open>datetime.now()\<close>\<close>

definition now :: "env \<Rightarrow> world \<Rightarrow> int \<times> world" where
  "now env w = (clock env (ticks w), w\<lparr>ticks := ticks w + 1\<rparr>)"

text \<open>
  The browser and the site during one run, as the outcomes of the awaited operations:
  \<open>None\<close> (or \<open>Inr\<close>) when the operation returns, the exception when it raises.  Any of
  them may raise \<open>CancelledError\<close>; \<open>asyncio.sleep\<close> raises nothing else.
\<close>

record frame_doc =
  body_text :: "exn + pystr option"

record iframe =
  src_attr :: "exn + pystr option"
  content_frame :: "exn + frame_doc option"
  frame_sleep :: "exn option"

record site =
  launch :: "exn option"
  new_page :: "exn option"
  goto :: "exn option"
  nav_sleep :: "exn option"
  iframes :: "exn + iframe list"
  screenshot :: "pystr \<Rightarrow> exn option"
  close_browser :: "exn option"

text \<open>The extractor object: of its fields only \<open>output_dir\<close> is read after construction.\<close>

record extractor =
  output_dir :: ppath


section \<open>The extractor\<close>

subsection \<open>\<open>validate_url\<close> and \<open>extract_book_id\<close>\<close>

text \<open>Any exception of \<open>urlparse\<close> is caught and gives \<open>False\<close>.\<close>

definition validate_url :: "env \<Rightarrow> pystr \<Rightarrow> bool" where
  "validate_url env url =
     (case urlparse (netloc_ok env) url of
        Inl e \<Rightarrow> False
      | Inr parsed \<Rightarrow>
          (let is_alkafeel = contains (netloc parsed) (str ''library.alkafeel.net'');
               has_book_path = contains (path parsed) (str ''/dic/book/'')
           in if \<not> is_alkafeel then False
              else if \<not> has_book_path then False
              else True))"

text \<open>The value of the \<open>e\<close> parameter, or a name made from the time of day.\<close>

definition extract_book_id :: "env \<Rightarrow> pystr \<Rightarrow> world \<Rightarrow> pystr \<times> world" where
  "extract_book_id env url w =
     (case re_search id_pattern url of
        Some g \<Rightarrow> (g, w)
      | None \<Rightarrow> (case now env w of (t, w') \<Rightarrow> (str ''book_'' @ strftime env t, w')))"

subsection \<open>The browser session\<close>

definition setup_browser :: "site \<Rightarrow> world \<Rightarrow> (exn + unit) \<times> world" where
  "setup_browser st w =
     (case launch st of
        Some e \<Rightarrow> (Inl e, emit Launch w)
      | None \<Rightarrow> (Inr (), emit Launch w))"

definition setup_page :: "site \<Rightarrow> world \<Rightarrow> (exn + unit) \<times> world" where
  "setup_page st w =
     (case new_page st of
        Some e \<Rightarrow> (Inl e, emit NewPage w)
      | None \<Rightarrow> (Inr (), emit NewPage w))"

text \<open>\<open>navigate_to_book\<close>: \<open>page.goto\<close>, then three seconds of sleep; an \<open>Exception\<close> of
  either gives \<open>False\<close>.\<close>

definition navigate_to_book :: "site \<Rightarrow> pystr \<Rightarrow> world \<Rightarrow> (exn + bool) \<times> world" where
  "navigate_to_book st url w =
     (let w1 = emit (Goto url) w
      in case goto st of
           Some e \<Rightarrow> (if is_Exception e then Inr False else Inl e, w1)
         | None \<Rightarrow>
             (let w2 = emit Sleep w1
              in case nav_sleep st of
                   Some e \<Rightarrow> (if is_Exception e then Inr False else Inl e, w2)
                 | None \<Rightarrow> (Inr True, w2)))"

subsection \<open>\<open>extract_iframe_content\<close>\<close>

record frame_data =
  iframe_index :: nat
  iframe_src :: "pystr option"
  content :: pystr
  content_length :: nat

text \<open>How one pass through the body of the \<open>for\<close> loop ends.\<close>

datatype 'a step = Continue | Return 'a | Raise exn

text \<open>The inner handler \<open>except Exception as iframe_error\<close>: log and go on with the next
  frame; anything else propagates.\<close>

definition iframe_error :: "exn \<Rightarrow> world \<Rightarrow> frame_data step \<times> world" where
  "iframe_error e w =
     (if is_Exception e then (Continue, logger Error ''Error processing iframe'' w)
      else (Raise e, w))"

text \<open>The body of the loop for the frame at position \<open>i\<close> of the enumeration.\<close>

definition process_iframe ::
  "extractor \<Rightarrow> site \<Rightarrow> pystr \<Rightarrow> nat \<Rightarrow> iframe \<Rightarrow> world \<Rightarrow> frame_data step \<times> world" where
  "process_iframe self st book_id i fr w =
     (let w1 = emit (GetAttribute i) (logger Info ''Processing iframe'' w)
      in case src_attr fr of
           Inl e \<Rightarrow> iframe_error e w1
         | Inr src \<Rightarrow>
             (let w2 = emit (ContentFrame i) (logger Info ''Iframe src'' w1)
              in case content_frame fr of
                   Inl e \<Rightarrow> iframe_error e w2
                 | Inr None \<Rightarrow>
                     (Continue, logger Warning ''Could not access iframe content'' w2)
                 | Inr (Some doc) \<Rightarrow>
                     (let w3 = emit Sleep w2
                      in case frame_sleep fr of
                           Some e \<Rightarrow> iframe_error e w3
                         | None \<Rightarrow>
                             (let w4 = emit (TextContent i) w3
                              in case body_text doc of
                                   Inl e \<Rightarrow> iframe_error e w4
                                 | Inr None \<Rightarrow>
                                     (Continue,
                                      logger Warning ''Iframe has insufficient content'' w4)
                                 | Inr (Some iframe_text) \<Rightarrow>
                                     (if iframe_text = [] \<or> length (strip iframe_text) < 100
                                      then (Continue,
                                            logger Warning ''Iframe has insufficient content'' w4)
                                      else
                                        (let w5 = logger Info ''Extracted characters from iframe'' w4;
                                             screenshot_path =
                                               joinpath (joinpath (output_dir self) (str ''screenshots''))
                                                 (book_id @ str ''_iframe_'' @ decimal (i + 1) @
                                                  str ''.png'');
                                             w6 = emit (Screenshot (path_str screenshot_path)) w5;
                                             found = \<lparr>iframe_index = i + 1, iframe_src = src,
                                                       content = iframe_text,
                                                       content_length = length iframe_text\<rparr>
                                         in case screenshot st (path_str screenshot_path) of
                                              None \<Rightarrow>
                                                (Return found, logger Info ''Screenshot saved'' w6)
                                            | Some e \<Rightarrow>
                                                (if is_Exception e
                                                 then (Return found,
                                                       logger Warning ''Screenshot failed'' w6)
                                                 else (Raise e, w6))))))))"

text \<open>\<open>for i, iframe in enumerate(iframe_elements)\<close>, from position \<open>i\<close> on.\<close>

fun scan_iframes ::
  "extractor \<Rightarrow> site \<Rightarrow> pystr \<Rightarrow> nat \<Rightarrow> iframe list \<Rightarrow> world \<Rightarrow> frame_data step \<times> world" where
  "scan_iframes self st book_id i [] w = (Continue, w)"
| "scan_iframes self st book_id i (fr # frs) w =
     (case process_iframe self st book_id i fr w of
        (Continue, w') \<Rightarrow> scan_iframes self st book_id (i + 1) frs w'
      | (Return d, w') \<Rightarrow> (Return d, w')
      | (Raise e, w') \<Rightarrow> (Raise e, w'))"

text \<open>The outer handler \<open>except Exception\<close> turns an exception of the frame query into
  \<open>None\<close>; the result is \<open>Inl\<close> only for an exception that it does not catch.\<close>

definition extract_iframe_content ::
  "extractor \<Rightarrow> site \<Rightarrow> pystr \<Rightarrow> world \<Rightarrow> (exn + frame_data option) \<times> world" where
  "extract_iframe_content self st book_id w =
     (let w1 = emit QuerySelectorAll (logger Info ''Searching for iframe content...'' w)
      in case iframes st of
           Inl e \<Rightarrow>
             (if is_Exception e
              then (Inr None, logger Error ''Failed to extract iframe content'' w1)
              else (Inl e, w1))
         | Inr iframe_elements \<Rightarrow>
             (if iframe_elements = []
              then (Inr None, logger Error ''No iframe found on the page'' w1)
              else (case scan_iframes self st book_id 0 iframe_elements
                           (logger Info ''Found iframe(s)'' w1) of
                      (Continue, w') \<Rightarrow>
                        (Inr None, logger Error ''No valid iframe content found'' w')
                    | (Return d, w') \<Rightarrow> (Inr (Some d), w')
                    | (Raise e, w') \<Rightarrow>
                        (if is_Exception e
                         then (Inr None, logger Error ''Failed to extract iframe content'' w')
                         else (Inl e, w')))))"

subsection \<open>\<open>decode_and_save_pdf\<close> and \<open>save_metadata\<close>\<close>

text \<open>\<open>open(path, mode)\<close> followed by the write: the file gets the content, or \<open>open\<close>
  raises \<open>OSError\<close> and nothing changes.\<close>

definition write_file :: "env \<Rightarrow> pystr \<Rightarrow> file_content \<Rightarrow> world \<Rightarrow> (exn + unit) \<times> world" where
  "write_file env p c w =
     (let w1 = emit (WriteFile p) w
      in case open_error env p of
           Some msg \<Rightarrow> (Inl (Exn OSError msg), w1)
         | None \<Rightarrow> (Inr (), w1\<lparr>files := (files w1)(p \<mapsto> c)\<rparr>))"

text \<open>Every exception of the decoding and of the write is caught and gives \<open>None\<close>.\<close>

definition decode_and_save_pdf ::
  "env \<Rightarrow> extractor \<Rightarrow> pystr \<Rightarrow> pystr \<Rightarrow> world \<Rightarrow> pystr option \<times> world" where
  "decode_and_save_pdf env self pdf_data_b64 book_id w =
     (case b64decode pdf_data_b64 of
        Inl e \<Rightarrow> (None, w)
      | Inr pdf_data \<Rightarrow>
          (let pdf_filename = book_id @ str ''.pdf'';
               pdf_path = joinpath (joinpath (output_dir self) (str ''pdfs'')) pdf_filename
           in case write_file env (path_str pdf_path) (Bytes pdf_data) w of
                (Inl e, w') \<Rightarrow> (None, w')
              | (Inr u, w') \<Rightarrow> (Some (path_str pdf_path), w')))"

definition save_metadata ::
  "env \<Rightarrow> extractor \<Rightarrow> pystr \<Rightarrow> pystr \<Rightarrow> pydict \<Rightarrow> world \<Rightarrow> (exn + pystr) \<times> world" where
  "save_metadata env self book_id url extraction_data w =
     (case now env w of
        (t, w1) \<Rightarrow>
          (let metadata =
                 dict_merge
                   [(''book_id'', VStr book_id),
                    (''original_url'', VStr url),
                    (''extraction_date'', VStr (isoformat env t)),
                    (''extractor_version'', VStr (str ''1.0.0'')),
                    (''created_by'', VStr (str ''Eylias Sharar''))]
                   extraction_data;
               metadata_file =
                 joinpath (joinpath (output_dir self) (str ''metadata''))
                   (book_id @ str ''_metadata.json'')
           in case write_file env (path_str metadata_file) (Json metadata) w1 of
                (Inl e, w2) \<Rightarrow> (Inl e, w2)
              | (Inr u, w2) \<Rightarrow> (Inr (path_str metadata_file), w2)))"

subsection \<open>\<open>extract_book\<close>\<close>

text \<open>\<open>raise Exception(msg)\<close>\<close>

definition raise_Exception :: "string \<Rightarrow> exn" where
  "raise_Exception msg = Exn PlainException (str msg)"

text \<open>
  The body of the \<open>try\<close> statement after \<open>browser = await self.setup_browser()\<close>; \<open>Inl\<close>
  is an exception that leaves the body, \<open>Inr\<close> the dictionary of its \<open>return\<close>.
\<close>

definition extract_steps ::
  "env \<Rightarrow> extractor \<Rightarrow> site \<Rightarrow> pystr \<Rightarrow> pystr \<Rightarrow> int \<Rightarrow> world \<Rightarrow> (exn + pydict) \<times> world" where
  "extract_steps env self st url book_id extraction_start w =
     (case setup_page st w of
        (Inl e, w1) \<Rightarrow> (Inl e, w1)
      | (Inr page, w1) \<Rightarrow>
     (case navigate_to_book st url w1 of
        (Inl e, w2) \<Rightarrow> (Inl e, w2)
      | (Inr False, w2) \<Rightarrow> (Inl (raise_Exception ''Failed to navigate to book page''), w2)
      | (Inr True, w2) \<Rightarrow>
     (case extract_iframe_content self st book_id w2 of
        (Inl e, w3) \<Rightarrow> (Inl e, w3)
      | (Inr None, w3) \<Rightarrow> (Inl (raise_Exception ''Failed to extract iframe content''), w3)
      | (Inr (Some iframe_data), w3) \<Rightarrow>
     (case extract_pdf_data (content iframe_data) of
        None \<Rightarrow> (Inl (raise_Exception ''Failed to extract PDF data''), w3)
      | Some pdf_data_b64 \<Rightarrow>
     (if pdf_data_b64 = [] then (Inl (raise_Exception ''Failed to extract PDF data''), w3)
      else
     (case decode_and_save_pdf env self pdf_data_b64 book_id w3 of
        (None, w4) \<Rightarrow> (Inl (raise_Exception ''Failed to decode/save PDF''), w4)
      | (Some pdf_path, w4) \<Rightarrow>
     (if pdf_path = [] then (Inl (raise_Exception ''Failed to decode/save PDF''), w4)
      else
     (case b64decode pdf_data_b64 of
        Inl e \<Rightarrow> (Inl e, w4)
      | Inr decoded \<Rightarrow>
     (case now env w4 of
        (t, w5) \<Rightarrow>
          (let extraction_data =
                 [(''success'', VBool True),
                  (''book_id'', VStr book_id),
                  (''url'', VStr url),
                  (''pdf_path'', VStr pdf_path),
                  (''pdf_size_bytes'', VInt (int (length decoded))),
                  (''iframe_data'',
                     VDict [(''iframe_index'', VInt (int (iframe_index iframe_data))),
                            (''iframe_src'',
                               (case iframe_src iframe_data of None \<Rightarrow> VNone | Some s \<Rightarrow> VStr s)),
                            (''content_length'', VInt (int (content_length iframe_data)))]),
                  (''extraction_duration'', VStr (timedelta_str env (t - extraction_start)))]
           in case save_metadata env self book_id url extraction_data w5 of
                (Inl e, w6) \<Rightarrow> (Inl e, w6)
              | (Inr metadata_path, w6) \<Rightarrow>
                  (Inr (dict_set extraction_data ''metadata_path'' (VStr metadata_path)),
                   w6)))))))))))"

text \<open>The clause \<open>except Exception as e\<close>: the failure result with the message and the
  duration; an exception that is no \<open>Exception\<close> goes on.\<close>

definition except_clause ::
  "env \<Rightarrow> pystr \<Rightarrow> pystr \<Rightarrow> int \<Rightarrow> exn \<Rightarrow> world \<Rightarrow> (exn + pydict) \<times> world" where
  "except_clause env url book_id extraction_start e w =
     (if is_Exception e
      then (case now env w of
              (t, w') \<Rightarrow>
                (Inr [(''success'', VBool False),
                      (''error'', VStr (message e)),
                      (''book_id'', VStr book_id),
                      (''url'', VStr url),
                      (''extraction_duration'', VStr (timedelta_str env (t - extraction_start)))],
                 w'))
      else (Inl e, w))"

text \<open>The clause \<open>finally\<close> when \<open>browser\<close> is set: \<open>await browser.close()\<close>; an exception
  of it replaces the pending result.\<close>

definition finally_clause :: "site \<Rightarrow> (exn + pydict) \<times> world \<Rightarrow> (exn + pydict) \<times> world" where
  "finally_clause st rw =
     (case rw of
        (r, w) \<Rightarrow>
          (case close_browser st of
             None \<Rightarrow> (r, emit Close w)
           | Some e \<Rightarrow> (Inl e, emit Close w)))"

text \<open>\<open>extract_book\<close>: \<open>Inr\<close> is the dictionary returned, \<open>Inl\<close> an exception that leaves
  the function.\<close>

definition extract_book ::
  "env \<Rightarrow> extractor \<Rightarrow> site \<Rightarrow> pystr \<Rightarrow> world \<Rightarrow> (exn + pydict) \<times> world" where
  "extract_book env self st url w =
     (case now env w of
        (extraction_start, w1) \<Rightarrow>
          (if \<not> validate_url env url
           then (Inr [(''success'', VBool False),
                      (''error'', VStr (str ''Invalid URL'')),
                      (''url'', VStr url)],
                 w1)
           else (case extract_book_id env url w1 of
                   (book_id, w2) \<Rightarrow>
                     (case setup_browser st w2 of
                        (Inl e, w3) \<Rightarrow> except_clause env url book_id extraction_start e w3
                      | (Inr browser, w3) \<Rightarrow>
                          finally_clause st
                            (case extract_steps env self st url book_id extraction_start w3 of
                               (Inl e, w4) \<Rightarrow> except_clause env url book_id extraction_start e w4
                             | (Inr extraction_data, w4) \<Rightarrow> (Inr extraction_data, w4))))))"

subsection \<open>\<open>extract_multiple_books\<close>\<close>

text \<open>The summary.  \<open>success_rate\<close> is a float in the source; here it is the exact
  quotient, the rounding of the two float operations is not modelled.\<close>

record summary =
  total_books :: nat
  successful_extractions :: "pydict list"
  failed_extractions :: "pydict list"
  start_time :: pystr
  end_time :: pystr
  success_rate :: rat

text \<open>
  The \<open>for\<close> loop over the URLs from position \<open>i\<close> on, with the two lists built so far.
  \<open>web i\<close> is the behaviour of browser and site during the run for the URL at position
  \<open>i\<close>.  An exception that leaves \<open>extract_book\<close> leaves the loop.
\<close>

fun batch_loop ::
  "env \<Rightarrow> extractor \<Rightarrow> (nat \<Rightarrow> site) \<Rightarrow> nat \<Rightarrow> pystr list \<Rightarrow> pydict list \<Rightarrow> pydict list \<Rightarrow> world \<Rightarrow>
   (exn + pydict list \<times> pydict list) \<times> world" where
  "batch_loop env self web i [] succeeded failed w = (Inr (succeeded, failed), w)"
| "batch_loop env self web i (url # urls) succeeded failed w =
     (case extract_book env self (web i) url w of
        (Inl e, w') \<Rightarrow> (Inl e, w')
      | (Inr result, w') \<Rightarrow>
          (case map_of result ''success'' of
             None \<Rightarrow> (Inl (Exn KeyError (str ''success'')), w')
           | Some flag \<Rightarrow>
               (if truthy flag
                then batch_loop env self web (i + 1) urls (succeeded @ [result]) failed w'
                else batch_loop env self web (i + 1) urls succeeded (failed @ [result]) w')))"

definition extract_multiple_books ::
  "env \<Rightarrow> extractor \<Rightarrow> (nat \<Rightarrow> site) \<Rightarrow> pystr list \<Rightarrow> world \<Rightarrow> (exn + summary) \<times> world" where
  "extract_multiple_books env self web urls w =
     (case now env w of
        (t0, w1) \<Rightarrow>
          (case batch_loop env self web 0 urls [] [] w1 of
             (Inl e, w2) \<Rightarrow> (Inl e, w2)
           | (Inr (succeeded, failed), w2) \<Rightarrow>
               (case now env w2 of
                  (t1, w3) \<Rightarrow>
                    (if length urls = 0
                     then (Inl (Exn ZeroDivisionError (str ''division by zero'')), w3)
                     else (Inr \<lparr>total_books = length urls,
                                successful_extractions = succeeded,
                                failed_extractions = failed,
                                start_time = isoformat env t0,
                                end_time = isoformat env t1,
                                success_rate =
                                  of_nat (length succeeded) / of_nat (length urls) * 100\<rparr>,
                           w3)))))"

section \<open>Reference notions and example values\<close>

text \<open>
  Strict standard base64, the reading of ``valid standard base64'' in the specification:
  only alphabet characters, then at most two \<open>=\<close>, in groups of four
  (\<^verbatim>\<open>[A-Za-z0-9+/]*={0,2}\<close> with a length divisible by 4).
\<close>

definition in_alphabet :: "nat \<Rightarrow> bool" where
  "in_alphabet c \<longleftrightarrow> a2b c \<noteq> None"

definition strict_base64 :: "pystr \<Rightarrow> bool" where
  "strict_base64 s \<longleftrightarrow>
     list_all in_alphabet (takeWhile (\<lambda>c. c \<noteq> 61) s) \<and>
     dropWhile (\<lambda>c. c \<noteq> 61) s \<in> {[], [61], [61, 61]} \<and>
     length s mod 4 = 0"

text \<open>
  Whether the characters read by the lenient decoder end inside a group of four: the
  bookkeeping of \<open>a2b_loop\<close> without the bytes.  \<open>quad_pos\<close> is the number of data
  characters in the current group, \<open>pads\<close> the number of \<open>=\<close> seen since the last data
  character.  A data character moves on in the group; a \<open>=\<close> completes a group that holds
  two data characters and one earlier \<open>=\<close>, or three data characters, and ends the
  reading there; every other character is discarded.
\<close>

fun ends_inside_quad :: "nat \<Rightarrow> nat \<Rightarrow> pystr \<Rightarrow> bool" where
  "ends_inside_quad quad_pos pads [] = (quad_pos \<noteq> 0)"
| "ends_inside_quad quad_pos pads (c # cs) =
     (if c = 61
      then (if quad_pos \<ge> 2
            then (if quad_pos + (pads + 1) \<ge> 4 then False
                  else ends_inside_quad quad_pos (pads + 1) cs)
            else ends_inside_quad quad_pos pads cs)
      else if in_alphabet c then ends_inside_quad ((quad_pos + 1) mod 4) 0 cs
      else ends_inside_quad quad_pos pads cs)"

text \<open>An environment in which every write succeeds, a fresh state, and the extractor
  with the default \<open>output_dir="output"\<close>.\<close>

definition plain_env :: env where
  "plain_env =
     \<lparr>netloc_ok = (\<lambda>nl. True), clock = (\<lambda>n. int n), strftime = (\<lambda>t. decimal (nat t)),
      isoformat = (\<lambda>t. decimal (nat t)), timedelta_str = (\<lambda>d. decimal (nat d)),
      open_error = (\<lambda>p. None)\<rparr>"

definition new_world :: world where
  "new_world = \<lparr>files = Map.empty, trace = [], logged = [], ticks = 0\<rparr>"

definition default_extractor :: extractor where
  "default_extractor = \<lparr>output_dir = parse_part (str ''output'')\<rparr>"

text \<open>A browser that starts and a navigation that times out.\<close>

definition timeout_site :: site where
  "timeout_site =
     \<lparr>launch = None, new_page = None,
      goto = Some (Exn PlaywrightError (str ''Timeout 60000ms exceeded.'')),
      nav_sleep = None, iframes = Inr [], screenshot = (\<lambda>p. None), close_browser = None\<rparr>"

text \<open>The four bytes \<open>%PDF\<close> in base64 (\<open>JVBERg==\<close>); a body text that assigns them to
  \<open>pdfData\<close>, followed by a hundred letters; a frame with this body; a site whose page
  has this frame only.\<close>

definition pdf_payload :: pystr where
  "pdf_payload = b64encode [37, 80, 68, 70]"

definition book_text :: pystr where
  "book_text = str ''var pdfData = '' @ [34] @ pdf_payload @ [34] @ str '';'' @ replicate 100 120"

definition book_frame :: iframe where
  "book_frame =
     \<lparr>src_attr = Inr (Some (str ''viewer.html'')),
      content_frame = Inr (Some \<lparr>body_text = Inr (Some book_text)\<rparr>),
      frame_sleep = None\<rparr>"

definition book_site :: site where
  "book_site =
     \<lparr>launch = None, new_page = None, goto = None, nav_sleep = None,
      iframes = Inr [book_frame], screenshot = (\<lambda>p. None), close_browser = None\<rparr>"

text \<open>\<open>w'\<close> continues \<open>w\<close> by operations none of which is in \<open>X\<close>.\<close>

definition continues :: "event set \<Rightarrow> world \<Rightarrow> world \<Rightarrow> bool" where
  "continues X w w' \<longleftrightarrow> (\<exists>evs. trace w' = trace w @ evs \<and> set evs \<inter> X = {})"

text \<open>A run that is cancelled while the page loads.\<close>

definition cancelled_site :: site where
  "cancelled_site = timeout_site\<lparr>goto := Some (Exn CancelledError [])\<rparr>"

text \<open>
  The batch as the specification words it: the URLs are processed in input order, one
  run at a time, each run starting in the state the previous one left; \<open>Inr\<close> is the
  list of the results in that order, \<open>Inl\<close> an exception that left a run.  \<open>succeeded\<close> is
  the success flag of a result.
\<close>

fun run_in_order ::
  "env \<Rightarrow> extractor \<Rightarrow> (nat \<Rightarrow> site) \<Rightarrow> nat \<Rightarrow> pystr list \<Rightarrow> world \<Rightarrow> (exn + pydict list) \<times> world" where
  "run_in_order env self web i [] w = (Inr [], w)"
| "run_in_order env self web i (url # urls) w =
     (case extract_book env self (web i) url w of
        (Inl e, w') \<Rightarrow> (Inl e, w')
      | (Inr result, w') \<Rightarrow>
          (case run_in_order env self web (i + 1) urls w' of
             (Inl e, w'') \<Rightarrow> (Inl e, w'')
           | (Inr results, w'') \<Rightarrow> (Inr (result # results), w'')))"

definition succeeded :: "pydict \<Rightarrow> bool" where
  "succeeded d = (case map_of d ''success'' of None \<Rightarrow> False | Some flag \<Rightarrow> truthy flag)"


text \<open>
  What the frame scan makes of one frame, apart from the screenshot: the frame qualifies
  with its \<open>src\<close> and body text, or it is skipped (an operation raised an \<open>Exception\<close>,
  the content document is missing, the text is missing, empty, or shorter than 100
  characters once stripped), or an operation on it raised something that is no
  \<open>Exception\<close>.
\<close>

datatype frame_class = Qualifies "pystr option" pystr | Unusable | Interrupts exn

definition frame_failure :: "exn \<Rightarrow> frame_class" where
  "frame_failure e = (if is_Exception e then Unusable else Interrupts e)"

definition classify :: "iframe \<Rightarrow> frame_class" where
  "classify fr =
     (case src_attr fr of
        Inl e \<Rightarrow> frame_failure e
      | Inr src \<Rightarrow>
          (case content_frame fr of
             Inl e \<Rightarrow> frame_failure e
           | Inr None \<Rightarrow> Unusable
           | Inr (Some doc) \<Rightarrow>
               (case frame_sleep fr of
                  Some e \<Rightarrow> frame_failure e
                | None \<Rightarrow>
                    (case body_text doc of
                       Inl e \<Rightarrow> frame_failure e
                     | Inr None \<Rightarrow> Unusable
                     | Inr (Some t) \<Rightarrow>
                         if t = [] \<or> length (strip t) < 100 then Unusable
                         else Qualifies src t))))"

text \<open>The file of the screenshot for the frame with the 1-based number \<open>n\<close>, as the scan
  computes it, and the screenshot operations in a trace.\<close>

definition screenshot_file :: "extractor \<Rightarrow> pystr \<Rightarrow> nat \<Rightarrow> pystr" where
  "screenshot_file self book_id n =
     path_str (joinpath (joinpath (output_dir self) (str ''screenshots''))
       (book_id @ str ''_iframe_'' @ decimal n @ str ''.png''))"

fun is_screenshot :: "event \<Rightarrow> bool" where
  "is_screenshot (Screenshot p) = True"
| "is_screenshot _ = False"

text \<open>Every failure of a screenshot is an \<open>Exception\<close>.\<close>

definition screenshot_failures_ordinary :: "site \<Rightarrow> bool" where
  "screenshot_failures_ordinary st \<longleftrightarrow>
     (\<forall>p. case screenshot st p of None \<Rightarrow> True | Some e \<Rightarrow> is_Exception e)"

text \<open>A frame whose body is a hundred spaces and ten letters, and a page with this frame
  only; a frame without content document, and a page with that frame before the frame of
  the example site.\<close>

definition padded_text :: pystr where
  "padded_text = replicate 100 32 @ str ''short text''"

definition padded_site :: site where
  "padded_site =
     book_site\<lparr>iframes :=
       Inr [\<lparr>src_attr = Inr (Some (str ''viewer.html'')),
             content_frame = Inr (Some \<lparr>body_text = Inr (Some padded_text)\<rparr>),
             frame_sleep = None\<rparr>]\<rparr>"

definition two_frame_site :: site where
  "two_frame_site =
     book_site\<lparr>iframes :=
       Inr [\<lparr>src_attr = Inr None, content_frame = Inr None, frame_sleep = None\<rparr>,
            book_frame]\<rparr>"



section \<open>Facts about the matcher\<close>

lemma re_match_lit:
  "re_match (lit w @ r) opn g (str w @ s) = re_match r opn (if opn then g @ str w else g) s"
  by (induction w arbitrary: g) (simp_all add: lit_def str_def)

lemma re_match_star_run:
  "\<forall>c\<in>set w. P c \<Longrightarrow>
   re_match (Star P # r) opn (if opn then g @ w else g) s = Some m \<Longrightarrow>
   re_match (Star P # r) opn g (w @ s) = Some m"
proof (induction w arbitrary: g)
  case Nil
  then show ?case by (cases opn) simp_all
next
  case (Cons a w)
  have "re_match (Star P # r) opn (if opn then (if opn then g @ [a] else g) @ w else g) s = Some m"
    using Cons.prems(2) by (cases opn) simp_all
  then have "re_match (Star P # r) opn (if opn then g @ [a] else g) (w @ s) = Some m"
    using Cons.IH [of "if opn then g @ [a] else g"] Cons.prems(1) by (cases opn) simp_all
  then show ?case
    using Cons.prems(1) by simp
qed

lemma re_match_capture:
  assumes "w \<noteq> []" and "\<forall>c\<in>set w. \<not> quote c" and "quote q"
  shows "re_match [One nquote, Star nquote, GClose, One quote] True g (w @ q # s) = Some (g @ w)"
proof -
  obtain c w' where w: "w = c # w'"
    using assms(1) by (cases w) auto
  have run: "\<forall>x\<in>set w'. nquote x"
    using assms(2) w by (simp add: nquote_def)
  have stop: "re_match [Star nquote, GClose, One quote] True
                (if True then (g @ [c]) @ w' else g @ [c]) (q # s) = Some (g @ w)"
    using assms(3) w by (simp add: nquote_def)
  have "re_match [Star nquote, GClose, One quote] True (g @ [c]) (w' @ q # s) = Some (g @ w)"
    by (rule re_match_star_run [OF run stop])
  moreover have "nquote c"
    using assms(2) w by (simp add: nquote_def)
  ultimately show ?thesis
    using w by simp
qed

lemma re_search_skip:
  "\<forall>c\<in>set pre. \<not> P c \<Longrightarrow> re_search (One P # r) (pre @ s) = re_search (One P # r) s"
  by (induction pre) simp_all

lemma re_search_here:
  "re_match p False [] s = Some m \<Longrightarrow> re_search p s = Some m"
  by (cases s) simp_all

lemma lit_Cons: "lit (c # w) = One (\<lambda>x. x = of_char c) # lit w"
  by (simp add: lit_def)

lemma str_Cons: "str (c # w) = of_char c # str w"
  by (simp add: str_def)

lemma search_pdf_pattern:
  assumes "payload \<noteq> []" and "\<forall>c\<in>set payload. \<not> quote c" and "quote q1" and "quote q2"
    and "\<forall>c\<in>set pre. c \<noteq> 118"
  shows "re_search pdf_pattern (pre @ str ''var pdfData = '' @ q1 # payload @ q2 # post) = Some payload"
proof -
  let ?tail = "[One quote, GOpen, One nquote, Star nquote, GClose, One quote]"
  have cap: "re_match [One nquote, Star nquote, GClose, One quote] True [] (payload @ q2 # post)
             = Some payload"
    using re_match_capture [OF assms(1,2,4), of "[]" post] by simp
  have "re_match ?tail False [] (q1 # payload @ q2 # post) = Some payload"
    using assms(3) cap by simp
  then have "re_match pdf_pattern False [] (str ''var pdfData = '' @ q1 # payload @ q2 # post)
             = Some payload"
    unfolding pdf_pattern_def by (simp add: re_match_lit)
  then have here: "re_search pdf_pattern (str ''var pdfData = '' @ q1 # payload @ q2 # post)
             = Some payload"
    by (rule re_search_here)
  have shape: "pdf_pattern = One (\<lambda>x. x = 118) # lit ''ar pdfData = '' @ ?tail"
    by (simp add: pdf_pattern_def lit_Cons)
  have "re_search (One (\<lambda>x. x = 118) # lit ''ar pdfData = '' @ ?tail)
          (pre @ str ''var pdfData = '' @ q1 # payload @ q2 # post)
        = re_search (One (\<lambda>x. x = 118) # lit ''ar pdfData = '' @ ?tail)
          (str ''var pdfData = '' @ q1 # payload @ q2 # post)"
    by (rule re_search_skip) (use assms(5) in simp)
  then show ?thesis
    using here by (simp only: shape)
qed

lemma search_assign_pattern:
  assumes "payload \<noteq> []" and "\<forall>c\<in>set payload. \<not> quote c" and "quote q1" and "quote q2"
    and "\<forall>c\<in>set pre. c \<noteq> 112"
    and "\<forall>c\<in>set ws1. py_isspace c" and "\<forall>c\<in>set ws2. py_isspace c"
  shows "re_search assign_pattern
           (pre @ str ''pdfData'' @ ws1 @ str ''='' @ ws2 @ q1 # payload @ q2 # post) = Some payload"
proof -
  let ?tail = "[One quote, GOpen, One nquote, Star nquote, GClose, One quote]"
  have cap: "re_match [One nquote, Star nquote, GClose, One quote] True [] (payload @ q2 # post)
             = Some payload"
    using re_match_capture [OF assms(1,2,4), of "[]" post] by simp
  have q1ns: "\<not> py_isspace q1"
    using assms(3) by (auto simp: quote_def py_isspace_def)
  have t: "re_match ?tail False [] (q1 # payload @ q2 # post) = Some payload"
    using assms(3) cap by simp
  have "re_match (Star py_isspace # ?tail) False (if False then [] @ ws2 else []) (q1 # payload @ q2 # post) = Some payload"
    using t q1ns by simp
  then have s2: "re_match (Star py_isspace # ?tail) False [] (ws2 @ q1 # payload @ q2 # post) = Some payload"
    by (rule re_match_star_run [OF assms(7)])
  have eqns: "\<not> py_isspace 61"
    by (simp add: py_isspace_def)
  have "re_match (lit ''='' @ Star py_isspace # ?tail) False [] (str ''='' @ ws2 @ q1 # payload @ q2 # post) = Some payload"
    using s2 by (simp only: re_match_lit if_False)
  then have "re_match (Star py_isspace # lit ''='' @ Star py_isspace # ?tail) False (if False then [] @ ws1 else [])
               (str ''='' @ ws2 @ q1 # payload @ q2 # post) = Some payload"
    using eqns by (simp add: str_Cons lit_Cons)
  then have "re_match (Star py_isspace # lit ''='' @ Star py_isspace # ?tail) False []
               (ws1 @ str ''='' @ ws2 @ q1 # payload @ q2 # post) = Some payload"
    by (rule re_match_star_run [OF assms(6)])
  then have "re_match assign_pattern False []
               (str ''pdfData'' @ ws1 @ str ''='' @ ws2 @ q1 # payload @ q2 # post) = Some payload"
    unfolding assign_pattern_def by (simp add: re_match_lit)
  then have here: "re_search assign_pattern
               (str ''pdfData'' @ ws1 @ str ''='' @ ws2 @ q1 # payload @ q2 # post) = Some payload"
    by (rule re_search_here)
  let ?rest = "lit ''dfData'' @ [Star py_isspace] @ lit ''='' @ Star py_isspace # ?tail"
  have shape: "assign_pattern = One (\<lambda>x. x = 112) # ?rest"
    by (simp add: assign_pattern_def lit_Cons)
  have "re_search (One (\<lambda>x. x = 112) # ?rest)
          (pre @ str ''pdfData'' @ ws1 @ str ''='' @ ws2 @ q1 # payload @ q2 # post)
        = re_search (One (\<lambda>x. x = 112) # ?rest)
          (str ''pdfData'' @ ws1 @ str ''='' @ ws2 @ q1 # payload @ q2 # post)"
    by (rule re_search_skip) (use assms(5) in simp)
  then show ?thesis
    using here by (simp only: shape)
qed

lemma search_data_uri_pattern:
  assumes "payload \<noteq> []" and "\<forall>c\<in>set payload. \<not> quote c" and "quote q1" and "quote q2"
    and "\<forall>c\<in>set pre. \<not> quote c"
  shows "re_search data_uri_pattern
           (pre @ q1 # str ''data:application/pdf;base64,'' @ payload @ q2 # post) = Some payload"
proof -
  have cap: "re_match [One nquote, Star nquote, GClose, One quote] True [] (payload @ q2 # post)
             = Some payload"
    using re_match_capture [OF assms(1,2,4), of "[]" post] by simp
  have "re_match (lit ''data:application/pdf;base64,'' @ [GOpen, One nquote, Star nquote, GClose, One quote])
          False [] (str ''data:application/pdf;base64,'' @ payload @ q2 # post) = Some payload"
    using cap by (simp only: re_match_lit if_False re_match.simps)
  then have "re_match data_uri_pattern False []
          (q1 # str ''data:application/pdf;base64,'' @ payload @ q2 # post) = Some payload"
    unfolding data_uri_pattern_def using assms(3) by simp
  then have here: "re_search data_uri_pattern
          (q1 # str ''data:application/pdf;base64,'' @ payload @ q2 # post) = Some payload"
    by (rule re_search_here)
  show ?thesis
    unfolding data_uri_pattern_def
    using re_search_skip [of pre quote] assms(5) here [unfolded data_uri_pattern_def] by simp
qed

lemma search_header_pattern:
  assumes "payload \<noteq> []" and "\<forall>c\<in>set payload. \<not> quote c" and "quote q1" and "quote q2"
    and "\<forall>c\<in>set pre. \<not> quote c"
  shows "re_search header_pattern (pre @ q1 # str ''JVBERi'' @ payload @ q2 # post)
         = Some (str ''JVBERi'' @ payload)"
proof -
  have cap: "re_match [One nquote, Star nquote, GClose, One quote] True (str ''JVBERi'') (payload @ q2 # post)
             = Some (str ''JVBERi'' @ payload)"
    using re_match_capture [OF assms(1,2,4), of "str ''JVBERi''" post] by simp
  have "re_match (lit ''JVBERi'' @ [One nquote, Star nquote, GClose, One quote])
          True [] (str ''JVBERi'' @ payload @ q2 # post) = Some (str ''JVBERi'' @ payload)"
    using cap by (simp only: re_match_lit if_True append_Nil)
  then have "re_match header_pattern False []
          (q1 # str ''JVBERi'' @ payload @ q2 # post) = Some (str ''JVBERi'' @ payload)"
    unfolding header_pattern_def using assms(3) by simp
  then have here: "re_search header_pattern
          (q1 # str ''JVBERi'' @ payload @ q2 # post) = Some (str ''JVBERi'' @ payload)"
    by (rule re_search_here)
  show ?thesis
    unfolding header_pattern_def
    using re_search_skip [of pre quote] assms(5) here [unfolded header_pattern_def] by simp
qed

lemma extract_pdf_data_chain:
  "extract_pdf_data body =
     (case re_search pdf_pattern body of
        Some g \<Rightarrow> Some g
      | None \<Rightarrow>
          (case re_search assign_pattern body of
             Some g \<Rightarrow> Some g
           | None \<Rightarrow>
               (case re_search data_uri_pattern body of
                  Some g \<Rightarrow> Some g
                | None \<Rightarrow> re_search header_pattern body)))"
  by (simp add: extract_pdf_data_def alternative_patterns_def split: option.splits)

lemma extract_pdf_data_empty: "extract_pdf_data [] = None"
  by (simp add: extract_pdf_data_def alternative_patterns_def pdf_pattern_def assign_pattern_def
      data_uri_pattern_def header_pattern_def lit_def)

text \<open>
  Claim C3.  \<open>extract_pdf_data\<close> tries the four patterns in the order named assignment,
  loose assignment, data URI, PDF signature, and returns group 1 of the first one that
  matches anywhere in the text, \<open>None\<close> when none matches; it is a total function, so it
  raises on no input, and the empty string gives \<open>None\<close>.  Each pattern finds its form:
  a quoted payload of one or more characters other than quotes, newlines included, after
  the respective prefix.
\<close>

theorem extract_pdf_data_first_match:
  assumes "payload \<noteq> []" and "\<forall>c\<in>set payload. \<not> quote c" and "quote q1" and "quote q2"
    and "\<forall>c\<in>set pre. c \<noteq> 118 \<and> c \<noteq> 112 \<and> \<not> quote c"
    and "\<forall>c\<in>set ws1. py_isspace c" and "\<forall>c\<in>set ws2. py_isspace c"
  shows "extract_pdf_data body =
           (case re_search pdf_pattern body of
              Some g \<Rightarrow> Some g
            | None \<Rightarrow>
                (case re_search assign_pattern body of
                   Some g \<Rightarrow> Some g
                 | None \<Rightarrow>
                     (case re_search data_uri_pattern body of
                        Some g \<Rightarrow> Some g
                      | None \<Rightarrow> re_search header_pattern body)))
         \<and> extract_pdf_data [] = None
         \<and> extract_pdf_data (pre @ str ''var pdfData = '' @ q1 # payload @ q2 # post) = Some payload
         \<and> re_search assign_pattern
              (pre @ str ''pdfData'' @ ws1 @ str ''='' @ ws2 @ q1 # payload @ q2 # post) = Some payload
         \<and> re_search data_uri_pattern
              (pre @ q1 # str ''data:application/pdf;base64,'' @ payload @ q2 # post) = Some payload
         \<and> re_search header_pattern (pre @ q1 # str ''JVBERi'' @ payload @ q2 # post)
              = Some (str ''JVBERi'' @ payload)"
proof -
  have p1: "\<forall>c\<in>set pre. c \<noteq> 118" and p2: "\<forall>c\<in>set pre. c \<noteq> 112"
    and p3: "\<forall>c\<in>set pre. \<not> quote c"
    using assms(5) by auto
  have "re_search pdf_pattern (pre @ str ''var pdfData = '' @ q1 # payload @ q2 # post) = Some payload"
    by (rule search_pdf_pattern [OF assms(1-4) p1])
  then have first: "extract_pdf_data (pre @ str ''var pdfData = '' @ q1 # payload @ q2 # post) = Some payload"
    by (simp add: extract_pdf_data_def)
  show ?thesis
    using extract_pdf_data_chain [of body] extract_pdf_data_empty first
      search_assign_pattern [OF assms(1-4) p2 assms(6,7), of post]
      search_data_uri_pattern [OF assms(1-4) p3, of post]
      search_header_pattern [OF assms(1-4) p3, of post]
    by (intro conjI)
qed

theorem extract_pdf_data_first_match_witness:
  "extract_pdf_data
     (str ''<html> <script> console.log('' @ [34] @ str ''JVBERi0old'' @ [34] @
      str ''); pdfData='zzz'; var pdfData = '' @ [34] @ str ''JVBERi0xLjUN'' @ [10] @
      str ''JeLjz9MNCjE='' @ [34] @ str ''; </script> </html>'')
     = Some (str ''JVBERi0xLjUN'' @ [10] @ str ''JeLjz9MNCjE='')
   \<and> extract_pdf_data (str ''  var pdfData = '' @ [34] @ str ''JVBERi0xLjUN'' @ [10] @ str ''JeLjz9M='' @ [34] @ str '';'')
     = Some (str ''JVBERi0xLjUN'' @ [10] @ str ''JeLjz9M='')
   \<and> extract_pdf_data (str ''window.pdfData ='' @ [10, 32, 39] @ str ''JVBERi0x'' @ [39] @ str '';'')
     = Some (str ''JVBERi0x'')
   \<and> extract_pdf_data (str ''src='' @ [34] @ str ''data:application/pdf;base64,JVBERi0x'' @ [34])
     = Some (str ''JVBERi0x'')
   \<and> extract_pdf_data (str ''load('' @ [39] @ str ''JVBERi0x'' @ [39] @ str '')'') = Some (str ''JVBERi0x'')
   \<and> extract_pdf_data (str ''var otherData = '' @ [34] @ str ''some other data'' @ [34] @ str '';'') = None
   \<and> extract_pdf_data [] = None"
  using extract_pdf_data_first_match
    [of "str ''JVBERi0xLjUN'' @ [10] @ str ''JeLjz9M=''" 34 34 "str ''  ''" "[]" "[]" "[]" "str '';''"]
  by (simp add: quote_def str_def) code_simp


section \<open>Facts about base64\<close>

lemma and3: "(a::8 word) AND 3 = take_bit 2 a"
  by (simp add: take_bit_eq_mask mask_eq_exp_minus_1)
lemma and15: "(a::8 word) AND 15 = take_bit 4 a"
  by (simp add: take_bit_eq_mask mask_eq_exp_minus_1)
lemma and63: "(a::8 word) AND 63 = take_bit 6 a"
  by (simp add: take_bit_eq_mask mask_eq_exp_minus_1)

lemma bit8: "bit (a::8 word) n \<Longrightarrow> n < 8"
  using bit_imp_le_length [of a n] by simp

lemma fix2: "2 \<le> n \<Longrightarrow> Suc (Suc (n - 2)) = n" by simp

lemma byte1: "push_bit 2 (drop_bit 2 a) OR drop_bit 4 (push_bit 4 (a AND 3) OR drop_bit 4 b) = (a::8 word)"
  unfolding and3
proof (rule bit_word_eqI)
  fix n
  show "bit (push_bit 2 (drop_bit 2 a) OR drop_bit 4 (push_bit 4 (take_bit 2 a) OR drop_bit 4 b)) n = bit a n"
    by (cases "n < 2") (auto simp add: bit_simps fix2 not_less dest: bit8)
qed

lemma left1: "(push_bit 4 (a AND 3) OR drop_bit 4 b) AND 15 = drop_bit 4 (b::8 word)"
  unfolding and3 and15 by (rule bit_word_eqI) (auto simp add: bit_simps dest: bit8)

lemma byte2: "push_bit 4 (drop_bit 4 b) OR drop_bit 2 (push_bit 2 (b AND 15) OR drop_bit 6 c) = (b::8 word)"
  unfolding and15
proof (rule bit_word_eqI)
  fix n
  show "bit (push_bit 4 (drop_bit 4 b) OR drop_bit 2 (push_bit 2 (take_bit 4 b) OR drop_bit 6 c)) n = bit b n"
    by (cases "n < 4") (auto simp add: bit_simps fix2 not_less dest: bit8)
qed

lemma left2: "(push_bit 2 (b AND 15) OR drop_bit 6 c) AND 3 = drop_bit 6 (c::8 word)"
  unfolding and3 and15 by (rule bit_word_eqI) (auto simp add: bit_simps dest: bit8)

lemma byte3: "push_bit 6 (drop_bit 6 c) OR (c AND 63) = (c::8 word)"
  unfolding and63 by (rule bit_word_eqI) (auto simp add: bit_simps not_less dest: bit8)

lemma byte1': "push_bit 2 (drop_bit 2 a) OR drop_bit 4 (push_bit 4 (a AND 3)) = (a::8 word)"
  unfolding and3
proof (rule bit_word_eqI)
  fix n
  show "bit (push_bit 2 (drop_bit 2 a) OR drop_bit 4 (push_bit 4 (take_bit 2 a))) n = bit a n"
    by (cases "n < 2") (auto simp add: bit_simps fix2 not_less dest: bit8)
qed

lemma left1': "(push_bit 4 (a AND 3)) AND 15 = (0::8 word)"
  unfolding and3 and15 by (rule bit_word_eqI) (auto simp add: bit_simps dest: bit8)

lemma byte2': "push_bit 4 (drop_bit 4 b) OR drop_bit 2 (push_bit 2 (b AND 15)) = (b::8 word)"
  unfolding and15
proof (rule bit_word_eqI)
  fix n
  show "bit (push_bit 4 (drop_bit 4 b) OR drop_bit 2 (push_bit 2 (take_bit 4 b))) n = bit b n"
    by (cases "n < 4") (auto simp add: bit_simps fix2 not_less dest: bit8)
qed

lemma sextet_bound: "take_bit 6 (v::8 word) = v \<Longrightarrow> unat v < 64"
proof -
  assume "take_bit 6 v = v"
  then have "unat v = take_bit 6 (unat v)"
    by (metis unsigned_take_bit_eq)
  also have "\<dots> < 2 ^ 6"
    by (rule take_bit_nat_less_exp)
  finally show ?thesis by simp
qed

lemma s1: "take_bit 6 (drop_bit 2 a) = drop_bit 2 (a::8 word)"
  by (rule bit_word_eqI) (auto simp add: bit_simps dest: bit8)
lemma s2: "take_bit 6 (push_bit 4 (a AND 3) OR drop_bit 4 b) = push_bit 4 (a AND 3) OR drop_bit 4 (b::8 word)"
  unfolding and3 by (rule bit_word_eqI) (auto simp add: bit_simps dest: bit8)
lemma s3: "take_bit 6 (push_bit 2 (b AND 15) OR drop_bit 6 c) = push_bit 2 (b AND 15) OR drop_bit 6 (c::8 word)"
  unfolding and15 by (rule bit_word_eqI) (auto simp add: bit_simps dest: bit8)
lemma s4: "take_bit 6 (c AND 63) = c AND (63::8 word)"
  unfolding and63 by simp
lemma s2': "take_bit 6 (push_bit 4 (a AND 3)) = push_bit 4 ((a::8 word) AND 3)"
  unfolding and3 by (rule bit_word_eqI) (auto simp add: bit_simps dest: bit8)
lemma s3': "take_bit 6 (push_bit 2 (b AND 15)) = push_bit 2 ((b::8 word) AND 15)"
  unfolding and15 by (rule bit_word_eqI) (auto simp add: bit_simps dest: bit8)


lemma b64_table_facts:
  "length b64_table = 64" "distinct b64_table" "61 \<notin> set b64_table"
  "\<forall>c\<in>set b64_table. c \<le> 127"
  by (simp_all add: b64_table_def str_def)

lemma table_index_nth:
  "distinct xs \<Longrightarrow> i < length xs \<Longrightarrow> table_index (xs ! i) xs = Some i"
proof (induction xs arbitrary: i)
  case Nil
  then show ?case by simp
next
  case (Cons x xs)
  show ?case
  proof (cases i)
    case 0
    then show ?thesis by simp
  next
    case (Suc j)
    then have "xs ! j \<in> set xs" and "table_index (xs ! j) xs = Some j"
      using Cons by auto
    then show ?thesis
      using Suc Cons.prems(1) by auto
  qed
qed

lemma a2b_b2a:
  assumes "take_bit 6 v = v"
  shows "a2b (b2a v) = Some v" and "b2a v \<noteq> 61" and "b2a v \<le> 127"
proof -
  have lt: "unat v < length b64_table"
    using sextet_bound [OF assms] by (simp add: b64_table_facts)
  then have "table_index (b64_table ! unat v) b64_table = Some (unat v)"
    by (rule table_index_nth [OF b64_table_facts(2)])
  then show "a2b (b2a v) = Some v"
    by (simp add: a2b_def b2a_def)
  have mem: "b2a v \<in> set b64_table"
    unfolding b2a_def using lt by (rule nth_mem)
  then show "b2a v \<noteq> 61"
    using b64_table_facts(3) by auto
  show "b2a v \<le> 127"
    using mem b64_table_facts(4) by blast
qed

lemmas sextets = s1 s2 s3 s4 s2' s3'

lemma a2b_loop_sextet:
  assumes "take_bit 6 v = v"
  shows "a2b_loop 0 l p out (b2a v # cs) = a2b_loop 1 v 0 out cs"
    and "a2b_loop 1 l p out (b2a v # cs)
         = a2b_loop 2 (v AND 15) 0 (out @ [push_bit 2 l OR drop_bit 4 v]) cs"
    and "a2b_loop 2 l p out (b2a v # cs)
         = a2b_loop 3 (v AND 3) 0 (out @ [push_bit 4 l OR drop_bit 2 v]) cs"
    and "a2b_loop 3 l p out (b2a v # cs) = a2b_loop 0 0 0 (out @ [push_bit 6 l OR v]) cs"
  using a2b_b2a(1,2) [OF assms] by simp_all

lemma a2b_loop_pad:
  "a2b_loop 2 l 0 out (61 # 61 # cs) = Inr out"
  "a2b_loop 3 l 0 out (61 # cs) = Inr out"
  by simp_all

lemma a2b_loop_quad:
  "a2b_loop 0 0 0 out
     (b2a (drop_bit 2 a) # b2a (push_bit 4 (a AND 3) OR drop_bit 4 b) #
      b2a (push_bit 2 (b AND 15) OR drop_bit 6 c) # b2a (c AND 63) # cs)
   = a2b_loop 0 0 0 (out @ [a, b, c]) cs"
  by (simp only: a2b_loop_sextet [OF s1] a2b_loop_sextet [OF s2] a2b_loop_sextet [OF s3]
      a2b_loop_sextet [OF s4] left1 left2 byte1 byte2 byte3 append_assoc append_Cons append_Nil)

lemma a2b_loop_tail1:
  "a2b_loop 0 0 0 out [b2a (drop_bit 2 a), b2a (push_bit 4 (a AND 3)), 61, 61] = Inr (out @ [a])"
  by (simp only: a2b_loop_sextet [OF s1] a2b_loop_sextet [OF s2'] a2b_loop_pad byte1')

lemma a2b_loop_tail2:
  "a2b_loop 0 0 0 out
     [b2a (drop_bit 2 a), b2a (push_bit 4 (a AND 3) OR drop_bit 4 b), b2a (push_bit 2 (b AND 15)), 61]
   = Inr (out @ [a, b])"
  by (simp only: a2b_loop_sextet [OF s1] a2b_loop_sextet [OF s2] a2b_loop_sextet [OF s3']
      a2b_loop_pad left1 byte1 byte2' append_assoc append_Cons append_Nil)

lemma a2b_loop_b64encode: "a2b_loop 0 0 0 out (b64encode bs) = Inr (out @ bs)"
proof (induction bs arbitrary: out rule: b64encode.induct)
  case 1
  then show ?case by simp
next
  case (2 a)
  show ?case by (simp only: b64encode.simps a2b_loop_tail1)
next
  case (3 a b)
  show ?case by (simp only: b64encode.simps a2b_loop_tail2)
next
  case (4 a b c bs)
  show ?case
    by (simp only: b64encode.simps append_Cons append_Nil a2b_loop_quad "4.IH") simp
qed

lemma b64encode_ascii: "\<not> list_ex (\<lambda>c. 127 < c) (b64encode bs)"
proof (induction bs rule: b64encode.induct)
  case 1
  then show ?case by simp
next
  case (2 a)
  show ?case
    using a2b_b2a(3) [OF s1, of a] a2b_b2a(3) [OF s2', of a] by (simp add: not_less)
next
  case (3 a b)
  show ?case
    using a2b_b2a(3) [OF s1, of a] a2b_b2a(3) [OF s2, of a b] a2b_b2a(3) [OF s3', of b]
    by (simp add: not_less)
next
  case (4 a b c bs)
  then show ?case
    using a2b_b2a(3) [OF s1, of a] a2b_b2a(3) [OF s2, of a b] a2b_b2a(3) [OF s3, of b c]
      a2b_b2a(3) [OF s4, of c]
    by (simp add: not_less)
qed

lemma b64decode_b64encode: "b64decode (b64encode bs) = Inr bs"
  by (simp add: b64decode_def b64encode_ascii a2b_loop_b64encode)


section \<open>The codec: \<open>decode_and_save_pdf\<close>\<close>

lemma a2b_loop_no_pad:
  "61 \<notin> set s \<Longrightarrow> q < 4 \<Longrightarrow>
   (\<exists>e. a2b_loop q l p out s = Inl e) \<longleftrightarrow> (q + length (filter in_alphabet s)) mod 4 \<noteq> 0"
proof (induction s arbitrary: q l p out)
  case Nil
  then show ?case by auto
next
  case (Cons c s)
  show ?case
  proof (cases "a2b c")
    case None
    then show ?thesis
      using Cons by (simp add: in_alphabet_def)
  next
    case (Some v)
    consider "q = 0" | "q = 1" | "q = 2" | "q = 3"
      using Cons.prems(2) by linarith
    then show ?thesis
    proof cases
      case 1
      then show ?thesis
        using Some Cons.prems(1) Cons.IH [of 1 v 0 out] by (simp add: in_alphabet_def)
    next
      case 2
      then show ?thesis
        using Some Cons.prems(1)
          Cons.IH [of 2 "v AND 15" 0 "out @ [push_bit 2 l OR drop_bit 4 v]"]
        by (simp add: in_alphabet_def)
    next
      case 3
      then show ?thesis
        using Some Cons.prems(1)
          Cons.IH [of 3 "v AND 3" 0 "out @ [push_bit 4 l OR drop_bit 2 v]"]
        by (simp add: in_alphabet_def)
    next
      case 4
      then show ?thesis
        using Some Cons.prems(1) Cons.IH [of 0 0 0 "out @ [push_bit 6 l OR v]"]
        by (simp add: in_alphabet_def mod_Suc)
    qed
  qed
qed

lemma b64decode_non_ascii:
  "list_ex (\<lambda>c. 127 < c) payload \<Longrightarrow> \<exists>e. b64decode payload = Inl e"
  by (simp add: b64decode_def)

lemma b64decode_no_pad:
  "\<not> list_ex (\<lambda>c. 127 < c) payload \<Longrightarrow> 61 \<notin> set payload \<Longrightarrow>
   (\<exists>e. b64decode payload = Inl e) \<longleftrightarrow> length (filter in_alphabet payload) mod 4 \<noteq> 0"
  using a2b_loop_no_pad [of payload 0 0 0 "[]"] by (simp add: b64decode_def)

lemma decode_and_save_pdf_error:
  "b64decode payload = Inl e \<Longrightarrow> decode_and_save_pdf env self payload book_id w = (None, w)"
  by (simp add: decode_and_save_pdf_def)

lemma pad_not_in_alphabet: "\<not> in_alphabet 61"
  by code_simp

lemma a2b_loop_raises:
  "q < 4 \<Longrightarrow> (\<exists>e. a2b_loop q l p out s = Inl e) \<longleftrightarrow> ends_inside_quad q p s"
proof (induction s arbitrary: q l p out)
  case Nil
  then show ?case by auto
next
  case (Cons c s)
  show ?case
  proof (cases "c = 61")
    case True
    then show ?thesis
      using Cons.prems Cons.IH [of q l "p + 1" out] Cons.IH [of q l p out] by simp
  next
    case False
    show ?thesis
    proof (cases "a2b c")
      case None
      then show ?thesis
        using False Cons by (simp add: in_alphabet_def)
    next
      case (Some v)
      have data: "ends_inside_quad q p (c # s) = ends_inside_quad ((q + 1) mod 4) 0 s"
        using False Some by (simp add: in_alphabet_def)
      consider "q = 0" | "q = 1" | "q = 2" | "q = 3"
        using Cons.prems by linarith
      then show ?thesis
      proof cases
        case 1
        have e: "(q + 1) mod 4 = 1"
          using 1 by simp
        have l: "a2b_loop q l p out (c # s) = a2b_loop 1 v 0 out s"
          using 1 False Some by simp
        show ?thesis
          unfolding data e l by (rule Cons.IH) simp
      next
        case 2
        have e: "(q + 1) mod 4 = 2"
          using 2 by simp
        have l: "a2b_loop q l p out (c # s) =
                   a2b_loop 2 (v AND 15) 0 (out @ [push_bit 2 l OR drop_bit 4 v]) s"
          using 2 False Some by simp
        show ?thesis
          unfolding data e l by (rule Cons.IH) simp
      next
        case 3
        have e: "(q + 1) mod 4 = 3"
          using 3 by simp
        have l: "a2b_loop q l p out (c # s) =
                   a2b_loop 3 (v AND 3) 0 (out @ [push_bit 4 l OR drop_bit 2 v]) s"
          using 3 False Some by simp
        show ?thesis
          unfolding data e l by (rule Cons.IH) simp
      next
        case 4
        have e: "(q + 1) mod 4 = 0"
          using 4 by simp
        have l: "a2b_loop q l p out (c # s) = a2b_loop 0 0 0 (out @ [push_bit 6 l OR v]) s"
          using 4 False Some by simp
        show ?thesis
          unfolding data e l by (rule Cons.IH) simp
      qed
    qed
  qed
qed

lemma ends_inside_quad_filter:
  "ends_inside_quad q p (filter (\<lambda>c. c = 61 \<or> in_alphabet c) s) = ends_inside_quad q p s"
  by (induction s arbitrary: q p) simp_all

lemma ends_inside_quad_data:
  "list_all in_alphabet d \<Longrightarrow>
   ends_inside_quad q p (d @ r) =
     ends_inside_quad ((q + length d) mod 4) (if d = [] then p else 0) r" if "q < 4"
  using that
proof (induction d arbitrary: q p)
  case Nil
  then show ?case by simp
next
  case (Cons c d)
  have c: "c \<noteq> 61" "in_alphabet c"
    using Cons.prems pad_not_in_alphabet by auto
  have "ends_inside_quad q p ((c # d) @ r) = ends_inside_quad ((q + 1) mod 4) 0 (d @ r)"
    using c by simp
  also have "\<dots> = ends_inside_quad (((q + 1) mod 4 + length d) mod 4) 0 r"
    using Cons.IH [of "(q + 1) mod 4" 0] Cons.prems by simp
  also have "((q + 1) mod 4 + length d) mod 4 = (q + length (c # d)) mod 4"
    by (simp add: mod_simps)
  finally show ?case
    by simp
qed

lemma ends_inside_quad_pads:
  "q + p < 4 \<Longrightarrow>
   ends_inside_quad q p (replicate k 61) = (q = 1 \<or> (2 \<le> q \<and> q + p + k < 4))"
  by (induction k arbitrary: p) auto

lemma b64decode_raises:
  "(\<exists>e. b64decode s = Inl e) \<longleftrightarrow> list_ex (\<lambda>c. 127 < c) s \<or> ends_inside_quad 0 0 s"
  using a2b_loop_raises [of 0 0 0 "[]" s] by (simp add: b64decode_def)

lemma b64decode_padding:
  assumes "\<not> list_ex (\<lambda>c. 127 < c) s"
    and "filter (\<lambda>c. c = 61 \<or> in_alphabet c) s = d @ replicate k 61"
    and "list_all in_alphabet d"
  shows "(\<exists>e. b64decode s = Inl e) \<longleftrightarrow>
           length d mod 4 = 1 \<or> (length d mod 4 = 2 \<and> k < 2) \<or> (length d mod 4 = 3 \<and> k = 0)"
proof -
  have "(\<exists>e. b64decode s = Inl e) \<longleftrightarrow> ends_inside_quad 0 0 (d @ replicate k 61)"
    using assms(1,2) ends_inside_quad_filter [of 0 0 s] by (simp add: b64decode_raises)
  also have "\<dots> \<longleftrightarrow> ends_inside_quad (length d mod 4) 0 (replicate k 61)"
    using ends_inside_quad_data [of 0 d 0 "replicate k 61"] assms(3) by simp
  also have "\<dots> \<longleftrightarrow> length d mod 4 = 1 \<or> (2 \<le> length d mod 4 \<and> length d mod 4 + k < 4)"
    using ends_inside_quad_pads [of "length d mod 4" 0 k] by simp
  also have "\<dots> \<longleftrightarrow> length d mod 4 = 1 \<or> (length d mod 4 = 2 \<and> k < 2) \<or> (length d mod 4 = 3 \<and> k = 0)"
    by (cases "length d mod 4 < 2") auto
  finally show ?thesis .
qed

text \<open>
  Claim C4, as the code has it.  Whenever the decoding raises, \<open>decode_and_save_pdf\<close>
  returns \<open>None\<close> and leaves the state as it was: no file is written and nothing is
  propagated (the function returns an optional path on every input).  The decoding
  raises exactly when the payload has a character outside ASCII or its data characters
  end inside a group of four.  In particular it raises on incorrect padding: where the
  characters of an ASCII payload other than those it discards (the ones that are neither
  in the alphabet nor \<open>=\<close>) are \<open>n\<close> alphabet characters followed by \<open>k\<close> characters
  \<open>=\<close>, it raises exactly when \<open>n mod 4\<close> is 1, or 2 with fewer than two \<open>=\<close>, or 3
  with no \<open>=\<close>.  On an ASCII payload without \<open>=\<close> this is when the number of alphabet
  characters is not a multiple of four.
\<close>

theorem decode_and_save_pdf_malformed:
  "(b64decode payload = Inl e \<longrightarrow>
      decode_and_save_pdf env self payload book_id w = (None, w))
   \<and> ((\<exists>e'. b64decode payload = Inl e') \<longleftrightarrow>
        list_ex (\<lambda>c. 127 < c) payload \<or> ends_inside_quad 0 0 payload)
   \<and> (list_ex (\<lambda>c. 127 < c) payload \<longrightarrow> (\<exists>e'. b64decode payload = Inl e'))
   \<and> (\<not> list_ex (\<lambda>c. 127 < c) payload
        \<and> filter (\<lambda>c. c = 61 \<or> in_alphabet c) payload = d @ replicate k 61
        \<and> list_all in_alphabet d \<longrightarrow>
        ((\<exists>e'. b64decode payload = Inl e') \<longleftrightarrow>
         length d mod 4 = 1 \<or> (length d mod 4 = 2 \<and> k < 2) \<or> (length d mod 4 = 3 \<and> k = 0)))
   \<and> (\<not> list_ex (\<lambda>c. 127 < c) payload \<and> 61 \<notin> set payload \<longrightarrow>
        ((\<exists>e'. b64decode payload = Inl e') \<longleftrightarrow>
         length (filter in_alphabet payload) mod 4 \<noteq> 0))"
  using decode_and_save_pdf_error [of payload e env self book_id w]
    b64decode_raises [of payload] b64decode_non_ascii [of payload]
    b64decode_padding [of payload d k] b64decode_no_pad [of payload]
  by blast

theorem decode_and_save_pdf_malformed_witness:
  "b64decode (str ''QUJ'') = Inl (Exn BinasciiError (str ''Incorrect padding''))
   \<and> decode_and_save_pdf plain_env default_extractor (str ''QUJ'') (str ''book1'') new_world
       = (None, new_world)
   \<and> list_ex (\<lambda>c. 127 < c) (str ''QUJD'' @ [233])
   \<and> (\<exists>e'. b64decode (str ''QUJD'' @ [233]) = Inl e')
   \<and> \<not> list_ex (\<lambda>c. 127 < c) (str ''QUJ'') \<and> 61 \<notin> set (str ''QUJ'')
   \<and> length (filter in_alphabet (str ''QUJ'')) mod 4 \<noteq> 0
   \<and> \<not> list_ex (\<lambda>c. 127 < c) (str ''QQ='')
   \<and> filter (\<lambda>c. c = 61 \<or> in_alphabet c) (str ''QQ='') = str ''QQ'' @ replicate 1 61
   \<and> list_all in_alphabet (str ''QQ'')
   \<and> (\<exists>e'. b64decode (str ''QQ='') = Inl e')
   \<and> ends_inside_quad 0 0 (str ''QQ='')
   \<and> filter (\<lambda>c. c = 61 \<or> in_alphabet c) (str ''QQ=='') = str ''QQ'' @ replicate 2 61
   \<and> \<not> (\<exists>e'. b64decode (str ''QQ=='') = Inl e')"
proof -
  have d: "b64decode (str ''QUJ'') = Inl (Exn BinasciiError (str ''Incorrect padding''))"
    by code_simp
  have n: "list_ex (\<lambda>c. 127 < c) (str ''QUJD'' @ [233])"
    by code_simp
  have a: "\<not> list_ex (\<lambda>c. 127 < c) (str ''QUJ'')" "61 \<notin> set (str ''QUJ'')"
    "length (filter in_alphabet (str ''QUJ'')) mod 4 \<noteq> 0"
    by code_simp+
  have p: "\<not> list_ex (\<lambda>c. 127 < c) (str ''QQ='')"
    "filter (\<lambda>c. c = 61 \<or> in_alphabet c) (str ''QQ='') = str ''QQ'' @ replicate 1 61"
    "list_all in_alphabet (str ''QQ'')"
    "\<not> list_ex (\<lambda>c. 127 < c) (str ''QQ=='')"
    "filter (\<lambda>c. c = 61 \<or> in_alphabet c) (str ''QQ=='') = str ''QQ'' @ replicate 2 61"
    by code_simp+
  have l: "length (str ''QQ'') mod 4 = 2 \<and> (1::nat) < 2"
    "length (str ''QQ'') mod 4 \<noteq> 1 \<and> \<not> (2::nat) < 2 \<and> length (str ''QQ'') mod 4 \<noteq> 3"
    by (simp_all add: str_def)
  have r1: "\<exists>e'. b64decode (str ''QQ='') = Inl e'"
    using decode_and_save_pdf_malformed [of "str ''QQ=''" _ _ _ _ _ "str ''QQ''" 1] p(1,2,3) l(1)
    by blast
  have r2: "\<not> (\<exists>e'. b64decode (str ''QQ=='') = Inl e')"
    using decode_and_save_pdf_malformed [of "str ''QQ==''" _ _ _ _ _ "str ''QQ''" 2] p(3,4,5) l(2)
    by blast
  have r3: "ends_inside_quad 0 0 (str ''QQ='')"
    using decode_and_save_pdf_malformed [of "str ''QQ=''"] r1 p(1)
    by blast
  have r4: "decode_and_save_pdf plain_env default_extractor (str ''QUJ'') (str ''book1'') new_world
       = (None, new_world)"
    using decode_and_save_pdf_malformed
      [of "str ''QUJ''" "Exn BinasciiError (str ''Incorrect padding'')" plain_env
          default_extractor "str ''book1''" new_world] d
    by blast
  have r5: "\<exists>e'. b64decode (str ''QUJD'' @ [233]) = Inl e'"
    using decode_and_save_pdf_malformed [of "str ''QUJD'' @ [233]"] n
    by blast
  show ?thesis
    using d n a p r1 r2 r3 r4 r5 by simp
qed

text \<open>
  Claim C4 as stated fails: a payload with a newline after \<open>QUJD\<close> is not strict
  base64, yet it is decoded to the bytes \<open>ABC\<close> and the file is written.
\<close>

theorem decode_and_save_pdf_lenient_counterexample:
  "\<not> strict_base64 (str ''QUJD'' @ [10])
   \<and> fst (decode_and_save_pdf plain_env default_extractor (str ''QUJD'' @ [10]) (str ''book1'')
          new_world) = Some (str ''output/pdfs/book1.pdf'')
   \<and> files (snd (decode_and_save_pdf plain_env default_extractor (str ''QUJD'' @ [10])
          (str ''book1'') new_world)) (str ''output/pdfs/book1.pdf'') = Some (Bytes [65, 66, 67])"
  by code_simp

text \<open>
  The round trip of claim C5 holds for the bytes: whatever path the codec computes for
  the identifier, an encoded byte sequence is stored there unchanged, and a second call
  with the same identifier replaces the content of the same file.
\<close>

lemma decode_and_save_pdf_roundtrip:
  assumes "p = path_str (joinpath (joinpath (output_dir self) (str ''pdfs'')) (book_id @ str ''.pdf''))"
    and "open_error env p = None"
  shows "decode_and_save_pdf env self (b64encode b) book_id w =
           (Some p, (emit (WriteFile p) w)\<lparr>files := (files w)(p \<mapsto> Bytes b)\<rparr>)"
  using assms
  by (simp add: decode_and_save_pdf_def b64decode_b64encode write_file_def emit_def Let_def)

lemma decode_and_save_pdf_overwrites:
  assumes "p = path_str (joinpath (joinpath (output_dir self) (str ''pdfs'')) (book_id @ str ''.pdf''))"
    and "open_error env p = None"
    and "decode_and_save_pdf env self (b64encode b1) book_id w = (r1, w1)"
    and "decode_and_save_pdf env self (b64encode b2) book_id w1 = (r2, w2)"
  shows "r1 = Some p" and "r2 = Some p" and "files w2 = (files w)(p \<mapsto> Bytes b2)"
  using assms decode_and_save_pdf_roundtrip [OF assms(1,2)]
  by (auto simp: emit_def)

text \<open>With the default output directory and an identifier without \<open>/\<close> the path is
  the one the specification names.\<close>

lemma split_on_plain: "sep \<notin> set s \<Longrightarrow> split_on sep s = [s]"
  by (induction s) auto

lemma pdf_path_plain_id:
  assumes "47 \<notin> set book_id"
  shows "path_str (joinpath (joinpath (output_dir default_extractor) (str ''pdfs''))
           (book_id @ str ''.pdf'')) = str ''output/pdfs/'' @ book_id @ str ''.pdf''"
proof -
  have out: "joinpath (output_dir default_extractor) (str ''pdfs'')
             = \<lparr>anchor = [], parts = [str ''output'', str ''pdfs'']\<rparr>"
    by code_simp
  have n: "47 \<notin> set (book_id @ str ''.pdf'')"
    using assms by (simp add: str_def)
  have "book_id @ str ''.pdf'' \<noteq> []" "book_id @ str ''.pdf'' \<noteq> [46]"
    by (simp_all add: str_def)
  moreover have "hd (book_id @ str ''.pdf'') \<noteq> 47"
    using n by (cases book_id) (auto simp: str_def)
  ultimately have "parse_part (book_id @ str ''.pdf'')
             = \<lparr>anchor = [], parts = [book_id @ str ''.pdf'']\<rparr>"
    using split_on_plain [OF n] by (simp add: parse_part_def splitroot_def)
  then have "joinpath \<lparr>anchor = [], parts = [str ''output'', str ''pdfs'']\<rparr> (book_id @ str ''.pdf'')
             = \<lparr>anchor = [], parts = [str ''output'', str ''pdfs'', book_id @ str ''.pdf'']\<rparr>"
    by (simp add: joinpath_def)
  then show ?thesis
    unfolding out by (simp add: path_str_def str_def)
qed

text \<open>
  Claim C5 fails on the code for an identifier that begins with \<open>/\<close>, which
  \<open>extract_book_id\<close> returns for a valid URL: the file name then has a root, the join
  drops the output directory, and the bytes are stored at \<open>/tmp/x.pdf\<close> and not under
  \<open>output/pdfs\<close>.
\<close>

theorem decode_and_save_pdf_escapes:
  "validate_url plain_env (str ''https://library.alkafeel.net/dic/book/?e=/tmp/x'')
   \<and> fst (extract_book_id plain_env (str ''https://library.alkafeel.net/dic/book/?e=/tmp/x'') new_world)
       = str ''/tmp/x''
   \<and> fst (decode_and_save_pdf plain_env default_extractor (b64encode [65, 66, 67]) (str ''/tmp/x'')
          new_world) = Some (str ''/tmp/x.pdf'')
   \<and> files (snd (decode_and_save_pdf plain_env default_extractor (b64encode [65, 66, 67])
          (str ''/tmp/x'') new_world)) (str ''/tmp/x.pdf'') = Some (Bytes [65, 66, 67])
   \<and> files (snd (decode_and_save_pdf plain_env default_extractor (b64encode [65, 66, 67])
          (str ''/tmp/x'') new_world)) (str ''output/pdfs//tmp/x.pdf'') = None"
  by code_simp


section \<open>The operations of a run\<close>

lemma world_simps [simp]:
  "trace (emit e w) = trace w @ [e]" "files (emit e w) = files w"
  "logged (emit e w) = logged w" "ticks (emit e w) = ticks w"
  "trace (logger l m w) = trace w" "files (logger l m w) = files w"
  "logged (logger l m w) = logged w @ [(l, m)]" "ticks (logger l m w) = ticks w"
  by (simp_all add: emit_def logger_def)

lemma continues_refl [simp]: "continues X w w"
  by (simp add: continues_def)

lemma continues_trans: "continues X w w1 \<Longrightarrow> continues X w1 w2 \<Longrightarrow> continues X w w2"
  by (auto simp: continues_def)

lemma continues_now: "now env w = (t, w') \<Longrightarrow> continues X w w'"
  by (auto simp: now_def continues_def)

lemma continues_process_iframe:
  assumes "process_iframe self st book_id i fr w = (s, w')"
  shows "continues {Close, Launch} w w'"
  using assms
  by (auto simp: process_iframe_def iframe_error_def Let_def continues_def
      split: sum.splits option.splits if_splits)

lemma continues_scan_iframes:
  "scan_iframes self st book_id i frs w = (s, w') \<Longrightarrow> continues {Close, Launch} w w'"
proof (induction frs arbitrary: i w)
  case Nil
  then show ?case by simp
next
  case (Cons fr frs)
  obtain s1 w1 where p: "process_iframe self st book_id i fr w = (s1, w1)"
    by (cases "process_iframe self st book_id i fr w")
  have c1: "continues {Close, Launch} w w1"
    by (rule continues_process_iframe [OF p])
  show ?case
  proof (cases s1)
    case Continue
    then have "scan_iframes self st book_id (i + 1) frs w1 = (s, w')"
      using Cons.prems p by simp
    then show ?thesis
      using Cons.IH c1 continues_trans by blast
  next
    case (Return d)
    then show ?thesis using Cons.prems p c1 by simp
  next
    case (Raise e)
    then show ?thesis using Cons.prems p c1 by simp
  qed
qed

lemma continues_extract_iframe_content:
  assumes "extract_iframe_content self st book_id w = (r, w')"
  shows "continues {Close, Launch} w w'"
proof (cases "iframes st")
  case (Inl e)
  then show ?thesis
    using assms by (auto simp: extract_iframe_content_def Let_def continues_def split: if_splits)
next
  case (Inr frs)
  show ?thesis
  proof (cases "frs = []")
    case True
    then show ?thesis
      using assms Inr by (auto simp: extract_iframe_content_def Let_def continues_def)
  next
    case False
    let ?w1 = "logger Info ''Found iframe(s)''
                 (emit QuerySelectorAll (logger Info ''Searching for iframe content...'' w))"
    obtain s w2 where sc: "scan_iframes self st book_id 0 frs ?w1 = (s, w2)"
      by (cases "scan_iframes self st book_id 0 frs ?w1")
    have a: "continues {Close, Launch} w ?w1"
      by (simp add: continues_def)
    have b: "continues {Close, Launch} ?w1 w2"
      by (rule continues_scan_iframes [OF sc])
    have c: "continues {Close, Launch} w2 w'"
      using assms Inr False sc
      by (auto simp: extract_iframe_content_def Let_def continues_def split: step.splits if_splits)
    show ?thesis
      using a b c continues_trans by blast
  qed
qed

lemma continues_write_file:
  "write_file env p c w = (r, w') \<Longrightarrow> continues {Close, Launch} w w'"
  by (auto simp: write_file_def Let_def continues_def split: option.splits)

lemma continues_decode_and_save_pdf:
  "decode_and_save_pdf env self payload book_id w = (r, w') \<Longrightarrow> continues {Close, Launch} w w'"
  by (auto simp: decode_and_save_pdf_def Let_def split: sum.splits prod.splits
      dest: continues_write_file)

lemma continues_save_metadata:
  "save_metadata env self book_id url d w = (r, w') \<Longrightarrow> continues {Close, Launch} w w'"
  by (auto simp: save_metadata_def Let_def split: sum.splits prod.splits
      dest!: continues_write_file continues_now [where X = "{Close, Launch}"]
      intro: continues_trans)

lemma continues_setup_page:
  "setup_page st w = (r, w') \<Longrightarrow> continues {Close, Launch} w w'"
  by (auto simp: setup_page_def continues_def split: option.splits)

lemma continues_navigate_to_book:
  "navigate_to_book st url w = (r, w') \<Longrightarrow> continues {Close, Launch} w w'"
  by (auto simp: navigate_to_book_def Let_def continues_def split: option.splits if_splits)


lemma continues_extract_steps:
  assumes "extract_steps env self st url book_id t0 w = (r, w')"
  shows "continues {Close, Launch} w w'"
proof -
  note c = continues_setup_page continues_navigate_to_book continues_extract_iframe_content
    continues_decode_and_save_pdf continues_save_metadata continues_now [where X = "{Close, Launch}"]
  show ?thesis
    using assms unfolding extract_steps_def Let_def
    by (auto split: prod.splits sum.splits option.splits bool.splits if_splits dest!: c)
       (meson continues_trans)+
qed


lemma except_clause_trace:
  "except_clause env url book_id t0 e w = (r, w') \<Longrightarrow> trace w' = trace w"
  by (auto simp: except_clause_def now_def split: if_splits)

lemma extract_book_id_trace:
  "extract_book_id env url w = (b, w') \<Longrightarrow> trace w' = trace w"
  by (auto simp: extract_book_id_def now_def split: option.splits)

lemma extract_book_trace_cases:
  assumes "extract_book env self st url w = (r, w')"
  shows "(\<not> validate_url env url \<and> trace w' = trace w)
       \<or> (validate_url env url \<and> launch st \<noteq> None \<and> trace w' = trace w @ [Launch])
       \<or> (validate_url env url \<and> launch st = None \<and>
            (\<exists>mid. trace w' = trace w @ Launch # mid @ [Close] \<and> Close \<notin> set mid \<and> Launch \<notin> set mid))"
proof (cases "validate_url env url")
  case False
  then show ?thesis
    using assms by (auto simp: extract_book_def now_def)
next
  case True
  obtain t0 w1 where n: "now env w = (t0, w1)"
    by (cases "now env w")
  obtain book_id w2 where b: "extract_book_id env url w1 = (book_id, w2)"
    by (cases "extract_book_id env url w1")
  have t2: "trace w2 = trace w"
    using n b extract_book_id_trace by (auto simp: now_def)
  show ?thesis
  proof (cases "launch st")
    case (Some e)
    then have "except_clause env url book_id t0 e (emit Launch w2) = (r, w')"
      using assms True n b by (simp add: extract_book_def setup_browser_def)
    then have "trace w' = trace w @ [Launch]"
      using except_clause_trace t2 by fastforce
    then show ?thesis
      using True Some by simp
  next
    case None
    obtain r3 w3 where s: "extract_steps env self st url book_id t0 (emit Launch w2) = (r3, w3)"
      by (cases "extract_steps env self st url book_id t0 (emit Launch w2)")
    obtain r4 w4 where x: "(case r3 of Inl e \<Rightarrow> except_clause env url book_id t0 e w3
                             | Inr d \<Rightarrow> (Inr d, w3)) = (r4, w4)"
      by (cases "case r3 of Inl e \<Rightarrow> except_clause env url book_id t0 e w3 | Inr d \<Rightarrow> (Inr d, w3)")
    have t4: "trace w4 = trace w3"
      using x except_clause_trace by (cases r3) auto
    obtain mid where mid: "trace w3 = trace (emit Launch w2) @ mid" "set mid \<inter> {Close, Launch} = {}"
      using continues_extract_steps [OF s] by (auto simp: continues_def)
    have "finally_clause st (r4, w4) = (r, w')"
      using assms True n b None s x by (simp add: extract_book_def setup_browser_def split: sum.splits)
    then have "trace w' = trace w4 @ [Close]"
      by (auto simp: finally_clause_def split: option.splits)
    then have "trace w' = trace w @ Launch # mid @ [Close]"
      using t4 mid(1) t2 by simp
    then show ?thesis
      using True None mid(2) by auto
  qed
qed


section \<open>The orchestrator: \<open>extract_book\<close>\<close>

text \<open>
  Claim C9.  In every run of \<open>extract_book\<close>, whatever it returns or raises, the
  operations it adds to the trace contain \<open>Close\<close> exactly once, as the last of them,
  when the browser was launched and came up; otherwise they contain no \<open>Close\<close>.  The
  result \<open>r\<close> may be a dictionary or an exception that leaves the function, a
  cancellation included.
\<close>

theorem extract_book_closes_session_once:
  assumes "extract_book env self st url w = (r, w')"
  shows "\<exists>evs. trace w' = trace w @ evs \<and>
           (if Launch \<in> set evs \<and> launch st = None
            then count_list evs Close = 1 \<and> last evs = Close
            else Close \<notin> set evs)"
proof -
  consider
      (invalid) "trace w' = trace w"
    | (no_browser) "launch st \<noteq> None" "trace w' = trace w @ [Launch]"
    | (session) mid where "launch st = None" "trace w' = trace w @ Launch # mid @ [Close]"
        "Close \<notin> set mid"
    using extract_book_trace_cases [OF assms] by blast
  then show ?thesis
  proof cases
    case invalid
    then show ?thesis by (intro exI [of _ "[]"]) simp
  next
    case no_browser
    then show ?thesis by (intro exI [of _ "[Launch]"]) simp
  next
    case session
    have "count_list (Launch # mid @ [Close]) Close = 1"
      using session(3) by (simp add: count_list_0_iff)
    then show ?thesis
      using session by (intro exI [of _ "Launch # mid @ [Close]"]) simp
  qed
qed

theorem extract_book_closes_session_once_witness:
  "fst (extract_book plain_env default_extractor timeout_site
          (str ''https://library.alkafeel.net/dic/book/?e=1'') new_world)
     = Inr [(''success'', VBool False),
            (''error'', VStr (str ''Failed to navigate to book page'')),
            (''book_id'', VStr (str ''1'')),
            (''url'', VStr (str ''https://library.alkafeel.net/dic/book/?e=1'')),
            (''extraction_duration'', VStr (str ''1''))]
   \<and> trace (snd (extract_book plain_env default_extractor timeout_site
          (str ''https://library.alkafeel.net/dic/book/?e=1'') new_world))
     = [Launch, NewPage, Goto (str ''https://library.alkafeel.net/dic/book/?e=1''), Close]
   \<and> (\<exists>evs. trace (snd (extract_book plain_env default_extractor timeout_site
          (str ''https://library.alkafeel.net/dic/book/?e=1'') new_world)) = trace new_world @ evs
        \<and> count_list evs Close = 1 \<and> last evs = Close)"
proof -
  let ?u = "str ''https://library.alkafeel.net/dic/book/?e=1''"
  let ?run = "extract_book plain_env default_extractor timeout_site ?u new_world"
  have r: "fst ?run = Inr [(''success'', VBool False),
            (''error'', VStr (str ''Failed to navigate to book page'')),
            (''book_id'', VStr (str ''1'')),
            (''url'', VStr ?u),
            (''extraction_duration'', VStr (str ''1''))]"
    by code_simp
  have t: "trace (snd ?run) = [Launch, NewPage, Goto ?u, Close]"
    by code_simp
  have l: "launch timeout_site = None"
    by (simp add: timeout_site_def)
  obtain evs where evs: "trace (snd ?run) = trace new_world @ evs"
    "if Launch \<in> set evs \<and> launch timeout_site = None
     then count_list evs Close = 1 \<and> last evs = Close else Close \<notin> set evs"
    using extract_book_closes_session_once [of plain_env default_extractor timeout_site ?u new_world
        "fst ?run" "snd ?run"]
    by auto
  have "evs = [Launch, NewPage, Goto ?u, Close]"
    using evs(1) t by (simp add: new_world_def)
  then have "count_list evs Close = 1 \<and> last evs = Close"
    using evs(2) l by simp
  then show ?thesis
    using r t evs(1) by blast
qed


section \<open>The results of \<open>extract_book\<close>\<close>

text \<open>
  A dictionary returned by \<open>extract_book\<close> has one of three forms: the result of a failed
  validation, the failure result of the \<open>except\<close> clause, or the success result.  So
  exactly one of \<open>pdf_path\<close> and \<open>error\<close> is present, according to the success flag; the
  duration is present exactly when the URL passed validation.  When validation fails
  nothing but the clock is touched: no browser operation, no file.  A URL passes
  validation only if its network location contains the text \<open>library.alkafeel.net\<close> and
  its path the text \<open>/dic/book/\<close>.
\<close>

lemma extract_steps_result:
  assumes "extract_steps env self st url book_id t0 w = (Inr d, w')"
  shows "\<exists>pdf_path n fd dur mp.
           d = [(''success'', VBool True), (''book_id'', VStr book_id), (''url'', VStr url),
                (''pdf_path'', VStr pdf_path), (''pdf_size_bytes'', VInt n),
                (''iframe_data'', VDict fd), (''extraction_duration'', VStr dur),
                (''metadata_path'', VStr mp)]"
  using assms unfolding extract_steps_def Let_def
  by (auto split: prod.splits sum.splits option.splits bool.splits if_splits)

lemma except_clause_result:
  assumes "except_clause env url book_id t0 e w = (Inr d, w')"
  shows "\<exists>dur. d = [(''success'', VBool False), (''error'', VStr (message e)),
                     (''book_id'', VStr book_id), (''url'', VStr url),
                     (''extraction_duration'', VStr dur)]"
  using assms by (auto simp: except_clause_def now_def split: if_splits)

lemma finally_clause_result:
  "finally_clause st (r, w) = (Inr d, w') \<Longrightarrow> r = Inr d"
  by (auto simp: finally_clause_def split: option.splits)

lemma extract_book_result:
  assumes "extract_book env self st url w = (Inr d, w')"
  shows "(\<not> validate_url env url \<and>
            d = [(''success'', VBool False), (''error'', VStr (str ''Invalid URL'')),
                 (''url'', VStr url)])
       \<or> (validate_url env url \<and>
            (\<exists>msg book_id dur.
               d = [(''success'', VBool False), (''error'', VStr msg), (''book_id'', VStr book_id),
                    (''url'', VStr url), (''extraction_duration'', VStr dur)]))
       \<or> (validate_url env url \<and>
            (\<exists>book_id pdf_path n fd dur mp.
               d = [(''success'', VBool True), (''book_id'', VStr book_id), (''url'', VStr url),
                    (''pdf_path'', VStr pdf_path), (''pdf_size_bytes'', VInt n),
                    (''iframe_data'', VDict fd), (''extraction_duration'', VStr dur),
                    (''metadata_path'', VStr mp)]))"
proof (cases "validate_url env url")
  case False
  then show ?thesis
    using assms by (auto simp: extract_book_def now_def)
next
  case True
  obtain t0 w1 where n: "now env w = (t0, w1)"
    by (cases "now env w")
  obtain book_id w2 where b: "extract_book_id env url w1 = (book_id, w2)"
    by (cases "extract_book_id env url w1")
  show ?thesis
  proof (cases "launch st")
    case (Some e)
    then have "except_clause env url book_id t0 e (emit Launch w2) = (Inr d, w')"
      using assms True n b by (simp add: extract_book_def setup_browser_def)
    from except_clause_result [OF this] show ?thesis
      using True by auto
  next
    case None
    obtain r3 w3 where s: "extract_steps env self st url book_id t0 (emit Launch w2) = (r3, w3)"
      by (cases "extract_steps env self st url book_id t0 (emit Launch w2)")
    obtain r4 w4 where x: "(case r3 of Inl e \<Rightarrow> except_clause env url book_id t0 e w3
                             | Inr d \<Rightarrow> (Inr d, w3)) = (r4, w4)"
      by (cases "case r3 of Inl e \<Rightarrow> except_clause env url book_id t0 e w3 | Inr d \<Rightarrow> (Inr d, w3)")
    have "finally_clause st (r4, w4) = (Inr d, w')"
      using assms True n b None s x by (simp add: extract_book_def setup_browser_def split: sum.splits)
    then have r4: "r4 = Inr d"
      by (rule finally_clause_result)
    show ?thesis
    proof (cases r3)
      case (Inl e)
      then have "except_clause env url book_id t0 e w3 = (Inr d, w4)"
        using x r4 by simp
      from except_clause_result [OF this] show ?thesis
        using True by auto
    next
      case (Inr d')
      then have "extract_steps env self st url book_id t0 (emit Launch w2) = (Inr d, w3)"
        using x r4 s by simp
      from extract_steps_result [OF this] show ?thesis
        using True by auto
    qed
  qed
qed

lemma extract_book_result_fields:
  assumes "extract_book env self st url w = (Inr d, w')"
  shows "(succeeded d \<longrightarrow> map_of d ''pdf_path'' \<noteq> None \<and> map_of d ''error'' = None)"
    and "(\<not> succeeded d \<longrightarrow> map_of d ''error'' \<noteq> None \<and> map_of d ''pdf_path'' = None)"
    and "(map_of d ''extraction_duration'' \<noteq> None) = validate_url env url"
    and "\<exists>b. map_of d ''success'' = Some (VBool b)"
    and "map_of d ''url'' = Some (VStr url)"
  using extract_book_result [OF assms] by (auto simp: succeeded_def)


lemma validate_url_substrings:
  assumes "validate_url env url"
  shows "\<exists>p. urlparse (netloc_ok env) url = Inr p
             \<and> contains (netloc p) (str ''library.alkafeel.net'')
             \<and> contains (path p) (str ''/dic/book/'')"
  using assms by (auto simp: validate_url_def Let_def split: sum.splits if_splits)







text \<open>
  Claim C1 fails on the code: \<open>validate_url\<close> tests whether \<open>library.alkafeel.net\<close> occurs
  in the network location, so it accepts the host \<open>library.alkafeel.net.evil.example\<close>,
  which is not the library's domain, and the run launches the browser and navigates to
  that URL.
\<close>

theorem validate_url_accepts_foreign_host:
  "urlparse (netloc_ok plain_env) (str ''https://library.alkafeel.net.evil.example/dic/book/?e=1'')
     = Inr \<lparr>scheme = str ''https'', netloc = str ''library.alkafeel.net.evil.example'',
            path = str ''/dic/book/''\<rparr>
   \<and> validate_url plain_env (str ''https://library.alkafeel.net.evil.example/dic/book/?e=1'')
   \<and> trace (snd (extract_book plain_env default_extractor timeout_site
          (str ''https://library.alkafeel.net.evil.example/dic/book/?e=1'') new_world))
     = [Launch, NewPage, Goto (str ''https://library.alkafeel.net.evil.example/dic/book/?e=1''),
        Close]"
  by code_simp

text \<open>
  Claim C2 fails on the code: the result of a failed validation has no duration, although
  \<open>extraction_start\<close> is taken before the validation and the failure result of the
  \<open>except\<close> clause carries the duration.
\<close>

theorem extract_book_invalid_url_lacks_duration:
  "fst (extract_book plain_env default_extractor book_site (str ''https://google.com'') new_world)
     = Inr [(''success'', VBool False), (''error'', VStr (str ''Invalid URL'')),
            (''url'', VStr (str ''https://google.com''))]
   \<and> map_of [(''success'', VBool False), (''error'', VStr (str ''Invalid URL'')),
              (''url'', VStr (str ''https://google.com''))] ''extraction_duration'' = None"
  by code_simp


section \<open>The batch runner: \<open>extract_multiple_books\<close>\<close>

text \<open>
  Claim C10.  On the empty list of URLs \<open>extract_multiple_books\<close> returns no summary: after
  the two clock readings the division by \<open>len(urls)\<close> raises \<open>ZeroDivisionError\<close>, which
  nothing catches.
\<close>

theorem extract_multiple_books_empty:
  "extract_multiple_books env self web [] w =
     (Inl (Exn ZeroDivisionError (str ''division by zero'')), w\<lparr>ticks := ticks w + 2\<rparr>)"
  by (simp add: extract_multiple_books_def now_def)

text \<open>The loop of the batch runner against the batch in input order.\<close>

lemma extract_book_success_flag:
  assumes "extract_book env self st url w = (Inr d, w')"
  shows "map_of d ''success'' = Some (VBool (succeeded d))"
  using extract_book_result_fields(4) [OF assms] by (auto simp: succeeded_def)


lemma batch_loop_raises:
  "run_in_order env self web i urls w = (Inl e, w') \<Longrightarrow>
   batch_loop env self web i urls acc_s acc_f w = (Inl e, w')"
proof (induction urls arbitrary: i w acc_s acc_f)
  case Nil
  then show ?case by simp
next
  case (Cons url urls)
  obtain r1 w1 where e: "extract_book env self (web i) url w = (r1, w1)"
    by (cases "extract_book env self (web i) url w")
  show ?case
  proof (cases r1)
    case (Inl e1)
    then show ?thesis using Cons.prems e by simp
  next
    case (Inr d)
    obtain r2 w2 where r: "run_in_order env self web (i + 1) urls w1 = (r2, w2)"
      by (cases "run_in_order env self web (i + 1) urls w1")
    have r2: "r2 = Inl e" "w2 = w'"
      using Cons.prems e Inr r by (cases r2; simp)+
    have flag: "map_of d ''success'' = Some (VBool (succeeded d))"
      using extract_book_success_flag e Inr by blast
    show ?thesis
      using e Inr flag Cons.IH [OF r [unfolded r2]] by (cases "succeeded d") simp_all
  qed
qed










section \<open>The frame scan: \<open>extract_iframe_content\<close>\<close>

lemma process_iframe_unusable:
  assumes "classify fr = Unusable"
  shows "\<exists>w'. process_iframe self st book_id i fr w = (Continue, w')
              \<and> continues {e. is_screenshot e} w w'"
  using assms
  by (auto simp: classify_def process_iframe_def iframe_error_def frame_failure_def Let_def
      continues_def split: sum.splits option.splits if_splits)


lemma process_iframe_qualifies:
  assumes "classify fr = Qualifies src t"
  shows "\<exists>w1. continues {e. is_screenshot e} w w1
           \<and> process_iframe self st book_id i fr w =
               (case screenshot st (screenshot_file self book_id (i + 1)) of
                  None \<Rightarrow>
                    (Return \<lparr>iframe_index = i + 1, iframe_src = src, content = t,
                             content_length = length t\<rparr>,
                     logger Info ''Screenshot saved''
                       (emit (Screenshot (screenshot_file self book_id (i + 1))) w1))
                | Some e \<Rightarrow>
                    if is_Exception e
                    then (Return \<lparr>iframe_index = i + 1, iframe_src = src, content = t,
                                  content_length = length t\<rparr>,
                          logger Warning ''Screenshot failed''
                            (emit (Screenshot (screenshot_file self book_id (i + 1))) w1))
                    else (Raise e, emit (Screenshot (screenshot_file self book_id (i + 1))) w1))"
proof -
  obtain doc where fr: "src_attr fr = Inr src" "content_frame fr = Inr (Some doc)"
    "frame_sleep fr = None" "body_text doc = Inr (Some t)" "t \<noteq> []" "\<not> length (strip t) < 100"
    using assms
    by (auto simp: classify_def frame_failure_def split: sum.splits option.splits if_splits)
  let ?w1 = "logger Info ''Extracted characters from iframe''
               (emit (TextContent i) (emit Sleep (emit (ContentFrame i) (logger Info ''Iframe src''
                 (emit (GetAttribute i) (logger Info ''Processing iframe'' w))))))"
  have "continues {e. is_screenshot e} w ?w1"
    by (simp add: continues_def)
  moreover have "process_iframe self st book_id i fr w =
               (case screenshot st (screenshot_file self book_id (i + 1)) of
                  None \<Rightarrow>
                    (Return \<lparr>iframe_index = i + 1, iframe_src = src, content = t,
                             content_length = length t\<rparr>,
                     logger Info ''Screenshot saved''
                       (emit (Screenshot (screenshot_file self book_id (i + 1))) ?w1))
                | Some e \<Rightarrow>
                    if is_Exception e
                    then (Return \<lparr>iframe_index = i + 1, iframe_src = src, content = t,
                                  content_length = length t\<rparr>,
                          logger Warning ''Screenshot failed''
                            (emit (Screenshot (screenshot_file self book_id (i + 1))) ?w1))
                    else (Raise e, emit (Screenshot (screenshot_file self book_id (i + 1))) ?w1))"
    using fr by (simp add: process_iframe_def Let_def screenshot_file_def split: option.splits)
  ultimately show ?thesis
    by blast
qed

lemma scan_iframes_skips:
  "\<forall>f\<in>set pre. classify f = Unusable \<Longrightarrow>
   \<exists>w1. scan_iframes self st book_id i (pre @ rest) w
          = scan_iframes self st book_id (i + length pre) rest w1
        \<and> continues {e. is_screenshot e} w w1"
proof (induction pre arbitrary: i w)
  case Nil
  then show ?case by (intro exI [of _ w]) simp
next
  case (Cons f pre)
  have cf: "classify f = Unusable"
    using Cons.prems by simp
  obtain w0 where p: "process_iframe self st book_id i f w = (Continue, w0)"
    "continues {e. is_screenshot e} w w0"
    using process_iframe_unusable [OF cf, of self st book_id i w] by blast
  obtain w1 where s: "scan_iframes self st book_id (i + 1) (pre @ rest) w0
          = scan_iframes self st book_id (i + 1 + length pre) rest w1"
    "continues {e. is_screenshot e} w0 w1"
    using Cons.IH [of "i + 1" w0] Cons.prems by auto
  have "continues {e. is_screenshot e} w w1"
    using p(2) s(2) by (rule continues_trans)
  moreover have "scan_iframes self st book_id i ((f # pre) @ rest) w
          = scan_iframes self st book_id (i + length (f # pre)) rest w1"
    using p(1) s(1) by (simp add: add.commute add.left_commute)
  ultimately show ?case
    by blast
qed






lemma strip_Nil [simp]: "strip [] = []"
  by (simp add: strip_def)

lemma classify_Qualifies:
  "classify fr = Qualifies src t \<longleftrightarrow>
     src_attr fr = Inr src \<and> frame_sleep fr = None
     \<and> (\<exists>doc. content_frame fr = Inr (Some doc) \<and> body_text doc = Inr (Some t))
     \<and> 100 \<le> length (strip t)"
  by (auto simp: classify_def frame_failure_def split: sum.splits option.splits if_splits)

lemma extract_iframe_content_qualifying:
  assumes "screenshot_failures_ordinary st"
    and "iframes st = Inr (pre @ fr # post)"
    and "\<forall>f\<in>set pre. classify f = Unusable"
    and "classify fr = Qualifies src t"
  shows "fst (extract_iframe_content self st book_id w) =
           Inr (Some \<lparr>iframe_index = length pre + 1, iframe_src = src, content = t,
                      content_length = length t\<rparr>)"
proof -
  let ?w0 = "logger Info ''Found iframe(s)''
               (emit QuerySelectorAll (logger Info ''Searching for iframe content...'' w))"
  let ?P = "screenshot_file self book_id (length pre + 1)"
  obtain w1 where sk: "scan_iframes self st book_id 0 (pre @ fr # post) ?w0
      = scan_iframes self st book_id (0 + length pre) (fr # post) w1"
    using scan_iframes_skips [OF assms(3), of self st book_id 0 "fr # post" ?w0] by blast
  have ord: "case screenshot st ?P of None \<Rightarrow> True | Some e \<Rightarrow> is_Exception e"
    using assms(1) by (simp add: screenshot_failures_ordinary_def)
  have "fst (scan_iframes self st book_id (length pre) (fr # post) w1)
        = Return \<lparr>iframe_index = length pre + 1, iframe_src = src, content = t,
                   content_length = length t\<rparr>"
    using process_iframe_qualifies [OF assms(4), of w1 self st book_id "length pre"] ord
    by (auto split: option.splits)
  then have "fst (scan_iframes self st book_id 0 (pre @ fr # post) ?w0)
        = Return \<lparr>iframe_index = length pre + 1, iframe_src = src, content = t,
                   content_length = length t\<rparr>"
    using sk by simp
  then show ?thesis
    using assms(2)
    by (auto simp: extract_iframe_content_def Let_def split: prod.splits step.splits)
qed

lemma extract_iframe_content_none:
  assumes "iframes st = Inr frs" and "\<forall>f\<in>set frs. classify f = Unusable"
  shows "fst (extract_iframe_content self st book_id w) = Inr None"
proof (cases "frs = []")
  case True
  then show ?thesis
    using assms(1) by (simp add: extract_iframe_content_def Let_def)
next
  case False
  let ?w0 = "logger Info ''Found iframe(s)''
               (emit QuerySelectorAll (logger Info ''Searching for iframe content...'' w))"
  obtain w1 where "scan_iframes self st book_id 0 (frs @ []) ?w0
      = scan_iframes self st book_id (0 + length frs) [] w1"
    using scan_iframes_skips [OF assms(2), of self st book_id 0 "[]" ?w0] by blast
  then have "scan_iframes self st book_id 0 frs ?w0 = (Continue, w1)"
    by simp
  then show ?thesis
    using assms(1) False by (simp add: extract_iframe_content_def Let_def)
qed

lemma example_frames:
  "classify book_frame = Qualifies (Some (str ''viewer.html'')) book_text"
  "classify \<lparr>src_attr = Inr None, content_frame = Inr None, frame_sleep = None\<rparr> = Unusable"
  "classify \<lparr>src_attr = Inr (Some (str ''viewer.html'')),
             content_frame = Inr (Some \<lparr>body_text = Inr (Some padded_text)\<rparr>),
             frame_sleep = None\<rparr> = Unusable"
  by code_simp+

lemma example_sites_ordinary:
  "screenshot_failures_ordinary two_frame_site" "screenshot_failures_ordinary padded_site"
  by (simp_all add: screenshot_failures_ordinary_def two_frame_site_def padded_site_def
      book_site_def)

text \<open>
  Claim C6, as the code has it.  Provided a failing screenshot fails with an \<open>Exception\<close>:
  when every frame before a frame is skipped and this frame qualifies, the scan returns
  this frame with its position in the enumeration counted from 1, its \<open>src\<close>, its body
  text and the length of that text; when every frame is skipped the scan returns \<open>None\<close>.
  A frame qualifies exactly when its \<open>src\<close> and its content document are obtained, the
  wait returns, and the body text has at least 100 characters once the white space at
  its two ends is stripped: the threshold applies to the stripped text, the text and
  the length that are returned are those of the text as read.
\<close>

theorem extract_iframe_content_first_qualifying:
  assumes "screenshot_failures_ordinary st"
  shows "(iframes st = Inr (pre @ fr # post) \<and> (\<forall>f\<in>set pre. classify f = Unusable)
            \<and> classify fr = Qualifies src t \<longrightarrow>
          fst (extract_iframe_content self st book_id w) =
            Inr (Some \<lparr>iframe_index = length pre + 1, iframe_src = src, content = t,
                       content_length = length t\<rparr>))
       \<and> (iframes st = Inr frs \<and> (\<forall>f\<in>set frs. classify f = Unusable) \<longrightarrow>
          fst (extract_iframe_content self st book_id w) = Inr None)
       \<and> (classify fr = Qualifies src t \<longleftrightarrow>
            src_attr fr = Inr src \<and> frame_sleep fr = None
            \<and> (\<exists>doc. content_frame fr = Inr (Some doc) \<and> body_text doc = Inr (Some t))
            \<and> 100 \<le> length (strip t))"
  using extract_iframe_content_qualifying [OF assms, of pre fr post src t self book_id w]
    extract_iframe_content_none [of st frs self book_id w]
    classify_Qualifies [of fr src t]
  by blast

theorem extract_iframe_content_first_qualifying_witness:
  "fst (extract_iframe_content default_extractor two_frame_site (str ''b'') new_world)
     = Inr (Some \<lparr>iframe_index = 2, iframe_src = Some (str ''viewer.html''),
                  content = book_text, content_length = length book_text\<rparr>)
   \<and> fst (extract_iframe_content default_extractor padded_site (str ''b'') new_world) = Inr None
   \<and> classify book_frame = Qualifies (Some (str ''viewer.html'')) book_text
   \<and> 100 \<le> length (strip book_text)"
proof -
  let ?closed = "\<lparr>src_attr = Inr None, content_frame = Inr None, frame_sleep = None\<rparr>"
  let ?padded = "\<lparr>src_attr = Inr (Some (str ''viewer.html'')),
             content_frame = Inr (Some \<lparr>body_text = Inr (Some padded_text)\<rparr>),
             frame_sleep = None\<rparr>"
  have f2: "iframes two_frame_site = Inr ([?closed] @ book_frame # [])"
    by (simp add: two_frame_site_def)
  have fp: "iframes padded_site = Inr [?padded]"
    by (simp add: padded_site_def)
  have a: "fst (extract_iframe_content default_extractor two_frame_site (str ''b'') new_world)
     = Inr (Some \<lparr>iframe_index = length [?closed] + 1, iframe_src = Some (str ''viewer.html''),
                  content = book_text, content_length = length book_text\<rparr>)"
    using extract_iframe_content_first_qualifying [OF example_sites_ordinary(1),
        of "[?closed]" book_frame "[]" "Some (str ''viewer.html'')" book_text default_extractor
           "str ''b''" new_world]
      f2 example_frames(1,2)
    by simp
  have b: "fst (extract_iframe_content default_extractor padded_site (str ''b'') new_world) = Inr None"
    using extract_iframe_content_first_qualifying [OF example_sites_ordinary(2),
        of _ _ _ _ _ default_extractor "str ''b''" new_world "[?padded]"]
      fp example_frames(3)
    by simp
  have c: "100 \<le> length (strip book_text)"
    using extract_iframe_content_first_qualifying [OF example_sites_ordinary(1),
        of _ book_frame _ "Some (str ''viewer.html'')" book_text]
      example_frames(1)
    by blast
  show ?thesis
    using a b c example_frames(1) by simp
qed

text \<open>
  Claim C6 as stated fails: the only frame of the page has a body text of 110
  characters, a hundred spaces and ten letters, which is at least the minimum length, yet
  the scan returns \<open>None\<close>, since the stripped text has 10 characters.
\<close>

theorem extract_iframe_content_padded_counterexample:
  "iframes padded_site =
     Inr [\<lparr>src_attr = Inr (Some (str ''viewer.html'')),
           content_frame = Inr (Some \<lparr>body_text = Inr (Some padded_text)\<rparr>),
           frame_sleep = None\<rparr>]
   \<and> length padded_text = 110
   \<and> length (strip padded_text) = 10
   \<and> fst (extract_iframe_content default_extractor padded_site (str ''b'') new_world) = Inr None"
  by code_simp

subsection \<open>Screenshots\<close>









end
